theory Spec2Isabelle
  imports
    Main
    "HOL-Library.Word"
    "HOL-Library.Char_ord"
    "HOL-Library.List_Lexorder"
    "HOL-Library.Multiset"
begin

section \<open>Strings\<close>

text \<open>
  Python strings are modelled as \<^typ>\<open>string\<close>. The order on \<^typ>\<open>char\<close> is the order of
  the character codes and the order on lists is the lexicographic one in which a proper
  prefix is smaller, which is how Python compares \<^verbatim>\<open>str\<close> values and lists.

  The characters of \<^typ>\<open>string\<close> are the code points below 256 (Latin-1), and the model
  is about names and extensions made of them. On these \<^verbatim>\<open>str.lower\<close> works character by
  character: the letters \<^verbatim>\<open>A\<close> to \<^verbatim>\<open>Z\<close> (65 to 90) and the letters with code 192 to 222
  other than 215 (the multiplication sign) move to the character 32 places further, every
  other character stays. \<^verbatim>\<open>s.lstrip(chars)\<close> drops the longest
  prefix of \<^verbatim>\<open>s\<close> made of characters of \<^verbatim>\<open>chars\<close>. \<^verbatim>\<open>s.rfind(c)\<close> is the index of the last
  occurrence of \<^verbatim>\<open>c\<close>, or \<^verbatim>\<open>-1\<close>.
\<close>

definition uppercase_letters :: string where
  "uppercase_letters =
     ''ABCDEFGHIJKLMNOPQRSTUVWXYZ''
       @ [CHR 0xC0, CHR 0xC1, CHR 0xC2, CHR 0xC3, CHR 0xC4, CHR 0xC5, CHR 0xC6, CHR 0xC7,
          CHR 0xC8, CHR 0xC9, CHR 0xCA, CHR 0xCB, CHR 0xCC, CHR 0xCD, CHR 0xCE, CHR 0xCF,
          CHR 0xD0, CHR 0xD1, CHR 0xD2, CHR 0xD3, CHR 0xD4, CHR 0xD5, CHR 0xD6, CHR 0xD8,
          CHR 0xD9, CHR 0xDA, CHR 0xDB, CHR 0xDC, CHR 0xDD, CHR 0xDE]"

definition lowercase_letters :: string where
  "lowercase_letters =
     ''abcdefghijklmnopqrstuvwxyz''
       @ [CHR 0xE0, CHR 0xE1, CHR 0xE2, CHR 0xE3, CHR 0xE4, CHR 0xE5, CHR 0xE6, CHR 0xE7,
          CHR 0xE8, CHR 0xE9, CHR 0xEA, CHR 0xEB, CHR 0xEC, CHR 0xED, CHR 0xEE, CHR 0xEF,
          CHR 0xF0, CHR 0xF1, CHR 0xF2, CHR 0xF3, CHR 0xF4, CHR 0xF5, CHR 0xF6, CHR 0xF8,
          CHR 0xF9, CHR 0xFA, CHR 0xFB, CHR 0xFC, CHR 0xFD, CHR 0xFE]"

definition lower_char :: "char \<Rightarrow> char" where
  "lower_char c =
     (case map_of (zip uppercase_letters lowercase_letters) c of
        Some l \<Rightarrow> l
      | None \<Rightarrow> c)"

definition lower :: "string \<Rightarrow> string" where
  "lower s = map lower_char s"

definition lstrip :: "string \<Rightarrow> string \<Rightarrow> string" where
  "lstrip chars s = dropWhile (\<lambda>c. c \<in> set chars) s"

fun rfind_from :: "char \<Rightarrow> string \<Rightarrow> int \<Rightarrow> int \<Rightarrow> int" where
  "rfind_from c [] i found = found"
| "rfind_from c (x # xs) i found = rfind_from c xs (i + 1) (if x = c then i else found)"

definition rfind :: "char \<Rightarrow> string \<Rightarrow> int" where
  "rfind c s = rfind_from c s 0 (- 1)"

section \<open>Paths\<close>

text \<open>
  A \<^verbatim>\<open>pathlib.Path\<close> on a POSIX system is its anchor (here: whether the path is
  absolute) and the list of its components. \<^verbatim>\<open>p / n\<close> for one component \<^verbatim>\<open>n\<close> appends it,
  \<^verbatim>\<open>p.name\<close> (here \<open>path_name\<close>) is the last component, the empty string when there is
  none, \<^verbatim>\<open>str(p)\<close>
  joins the components with \<^verbatim>\<open>/\<close> (and is \<^verbatim>\<open>.\<close> for the empty relative path).

  \<^verbatim>\<open>p.suffix\<close> is pathlib's definition up to Python 3.13:
  \<^verbatim>\<open>
    name = self.name
    i = name.rfind('.')
    if 0 < i < len(name) - 1: return name[i:]
    else: return ''
  \<close>

  Paths are compared as pathlib compares them: by the list of their parts, the anchor
  first (\<^verbatim>\<open>_cparts\<close>), each part as a string.
\<close>

datatype path = Path (absolute: bool) (components: "string list")

definition joinpath :: "path \<Rightarrow> string \<Rightarrow> path" where
  "joinpath p n = Path (absolute p) (components p @ [n])"

definition path_name :: "path \<Rightarrow> string" where
  "path_name p = (case components p of [] \<Rightarrow> [] | _ \<Rightarrow> last (components p))"

definition suffix :: "path \<Rightarrow> string" where
  "suffix p =
     (let nm = path_name p; i = rfind (CHR ''.'') nm
      in if 0 < i \<and> i < int (length nm) - 1 then drop (nat i) nm else [])"

fun join_sep :: "string list \<Rightarrow> string" where
  "join_sep [] = []"
| "join_sep [x] = x"
| "join_sep (x # y # ys) = x @ ''/'' @ join_sep (y # ys)"

definition str :: "path \<Rightarrow> string" where
  "str p =
     (if components p = [] then (if absolute p then ''/'' else ''.'')
      else (if absolute p then ''/'' else []) @ join_sep (components p))"

definition cparts :: "path \<Rightarrow> string list" where
  "cparts p = (if absolute p then [''/''] else []) @ components p"

section \<open>The file system\<close>

text \<open>
  A file system state maps a path to the node it resolves to (symbolic links followed),
  or to \<open>None\<close> when it resolves to nothing. A directory holds the names of its entries
  in the order the operating system enumerates them, which is arbitrary; an entry whose
  path resolves to nothing is a dangling link. \<open>Special\<close> stands for every other kind of
  node (FIFO, socket, device).

  The observations are those of \<^verbatim>\<open>pathlib\<close>: \<^verbatim>\<open>exists\<close>, \<^verbatim>\<open>is_dir\<close>, \<^verbatim>\<open>is_file\<close>, \<^verbatim>\<open>iterdir\<close>,
  \<^verbatim>\<open>read_bytes\<close> and \<^verbatim>\<open>stat().st_size\<close>. Reading a regular file and asking for its size are
  two observations, and a regular file is given by both: the bytes a read returns and the
  size \<^verbatim>\<open>stat\<close> reports. For an ordinary file that is left alone the size is the number of
  the bytes; a file of a virtual file system such as \<^verbatim>\<open>/proc\<close> reports the size 0 whatever a
  read returns, and a file that is written to between the read and the \<^verbatim>\<open>stat\<close> reports the
  size it has by then. The program calls \<open>iterdir\<close> only behind its \<open>is_dir\<close> check and
  \<open>read_bytes\<close> and \<open>st_size\<close> only behind its \<open>is_file\<close> check; on other nodes the
  three are given the empty list and 0. One call of a helper function observes one state
  of the file system (the state may change between calls, see the section on the runner),
  and every observation succeeds: permissions are not modelled.
\<close>

type_synonym byte = "8 word"

datatype node = RegularFile "byte list" nat | Directory "string list" | Special

type_synonym filesystem = "path \<Rightarrow> node option"

definition exists :: "filesystem \<Rightarrow> path \<Rightarrow> bool" where
  "exists fs p = (case fs p of None \<Rightarrow> False | Some _ \<Rightarrow> True)"

definition is_dir :: "filesystem \<Rightarrow> path \<Rightarrow> bool" where
  "is_dir fs p = (case fs p of Some (Directory _) \<Rightarrow> True | _ \<Rightarrow> False)"

definition is_file :: "filesystem \<Rightarrow> path \<Rightarrow> bool" where
  "is_file fs p = (case fs p of Some (RegularFile _ _) \<Rightarrow> True | _ \<Rightarrow> False)"

definition iterdir :: "filesystem \<Rightarrow> path \<Rightarrow> path list" where
  "iterdir fs p = (case fs p of Some (Directory names) \<Rightarrow> map (joinpath p) names | _ \<Rightarrow> [])"

definition read_bytes :: "filesystem \<Rightarrow> path \<Rightarrow> byte list" where
  "read_bytes fs p = (case fs p of Some (RegularFile bs _) \<Rightarrow> bs | _ \<Rightarrow> [])"

definition st_size :: "filesystem \<Rightarrow> path \<Rightarrow> nat" where
  "st_size fs p = (case fs p of Some (RegularFile _ n) \<Rightarrow> n | _ \<Rightarrow> 0)"

text \<open>
  What a helper does to its environment is recorded as the list of the observations it
  makes, in order, beside its result. \<open>Uuid4\<close> is a draw from the random source.
\<close>

datatype effect =
  Exists path | IsDir path | Iterdir path | IsFile path | ReadBytes path | Stat path | Uuid4

section \<open>Errors\<close>

text \<open>
  The exceptions the program raises, by their Python class, each with its message. The
  specification calls the \<^verbatim>\<open>FileNotFoundError\<close> of the lister \<^verbatim>\<open>DirectoryNotFound\<close>, that of
  the ingestor \<^verbatim>\<open>FileNotFound\<close>, and the \<^verbatim>\<open>IsADirectoryError\<close> of the ingestor \<^verbatim>\<open>NotAFile\<close>.
\<close>

datatype error =
  FileNotFoundError string | NotADirectoryError string | IsADirectoryError string

definition quoted :: "string \<Rightarrow> string" where
  "quoted s = [CHR 0x27] @ s @ [CHR 0x27]"

section \<open>The ingestion agent\<close>

subsection \<open>list_input_files\<close>

definition DEFAULT_ALLOWED_EXTENSIONS :: "string list" where
  "DEFAULT_ALLOWED_EXTENSIONS = [''pdf'', ''txt'', ''docx'', ''csv'', ''xlsx'']"

text \<open>
  The loop over \<^verbatim>\<open>input_dir.iterdir()\<close>: the accumulator is the observations made so far
  and \<^verbatim>\<open>matching_files\<close>.
\<close>

fun scan_entries ::
  "filesystem \<Rightarrow> string set \<Rightarrow> path list \<Rightarrow> effect list \<times> path list \<Rightarrow> effect list \<times> path list"
where
  "scan_entries fs normalized_exts [] acc = acc"
| "scan_entries fs normalized_exts (file_path # rest) (effs, matching_files) =
     (if \<not> is_file fs file_path
      then scan_entries fs normalized_exts rest (effs @ [IsFile file_path], matching_files)
      else
        let ext = lower (lstrip ''.'' (suffix file_path)) in
        if ext \<in> normalized_exts
        then scan_entries fs normalized_exts rest
               (effs @ [IsFile file_path], matching_files @ [file_path])
        else scan_entries fs normalized_exts rest (effs @ [IsFile file_path], matching_files))"

definition list_input_files ::
  "filesystem \<Rightarrow> path \<Rightarrow> string list option \<Rightarrow> effect list \<times> (error + path list)"
where
  "list_input_files fs input_dir allowed_extensions =
     (if \<not> exists fs input_dir
      then ([Exists input_dir],
            Inl (FileNotFoundError
                  (''Input directory '' @ quoted (str input_dir) @ '' was not found.'')))
      else if \<not> is_dir fs input_dir
      then ([Exists input_dir, IsDir input_dir],
            Inl (NotADirectoryError (quoted (str input_dir) @ '' is not a directory.'')))
      else
        let allowed = (case allowed_extensions of
                         Some exts \<Rightarrow> exts
                       | None \<Rightarrow> DEFAULT_ALLOWED_EXTENSIONS);
            normalized_exts = set (map (\<lambda>ext. lower (lstrip ''.'' ext)) allowed);
            (effs, matching_files) =
              scan_entries fs normalized_exts (iterdir fs input_dir)
                ([Exists input_dir, IsDir input_dir, Iterdir input_dir], []);
            ordered_files = sort_key cparts matching_files
        in (effs, Inr ordered_files))"

subsection \<open>ingest_file_from_path\<close>

text \<open>
  The dictionary the ingestor returns has a fixed set of keys and is a record here.
  \<^verbatim>\<open>uuid.uuid4()\<close> is a 128-bit number from the random source; it is an argument of the
  model. \<^verbatim>\<open>.hex\<close> is the number in 32 lowercase hexadecimal digits, the most significant
  first.
\<close>

record ingestion_record =
  file_id :: string
  name :: string
  extension :: string
  source :: string
  path :: string
  size_bytes :: nat
  content_bytes :: "byte list"

definition hex_digit :: "nat \<Rightarrow> char" where
  "hex_digit n = ''0123456789abcdef'' ! n"

definition hex :: "128 word \<Rightarrow> string" where
  "hex u = map (\<lambda>k. hex_digit ((unat u div 16 ^ (31 - k)) mod 16)) [0..<32]"

definition ingest_file_from_path ::
  "filesystem \<Rightarrow> 128 word \<Rightarrow> path \<Rightarrow> effect list \<times> (error + ingestion_record)"
where
  "ingest_file_from_path fs uuid4 p =
     (if \<not> exists fs p
      then ([Exists p],
            Inl (FileNotFoundError (''File '' @ quoted (str p) @ '' does not exist.'')))
      else if \<not> is_file fs p
      then ([Exists p, IsFile p],
            Inl (IsADirectoryError (quoted (str p) @ '' is not a file.'')))
      else
        let content = read_bytes fs p;
            ext = lower (lstrip ''.'' (suffix p));
            file_stat_st_size = st_size fs p;
            ingestion_result =
              \<lparr> file_id = ''F-'' @ take 8 (hex uuid4),
                name = path_name p,
                extension = ext,
                source = ''local_folder'',
                path = str p,
                size_bytes = file_stat_st_size,
                content_bytes = content \<rparr>
        in ([Exists p, IsFile p, ReadBytes p, Stat p, Uuid4], Inr ingestion_result))"

section \<open>The runner\<close>

text \<open>
  The runner calls the helpers one after the other. Between two calls the file system may
  have changed (the program holds no lock on it), so the world gives the state of the file
  system that the n-th helper call observes, and the number the n-th draw from the random
  source returns. It records the helper calls made so far and counts the draws.
\<close>

datatype call = ListInputFiles path | IngestFileFromPath path

record world =
  disk :: "nat \<Rightarrow> filesystem"
  entropy :: "nat \<Rightarrow> 128 word"
  calls :: "call list"
  draws :: nat

definition call_list_input_files :: "world \<Rightarrow> path \<Rightarrow> world \<times> (error + path list)" where
  "call_list_input_files w input_dir =
     (let (effs, r) = list_input_files (disk w (length (calls w))) input_dir None
      in (w\<lparr>calls := calls w @ [ListInputFiles input_dir]\<rparr>, r))"

definition call_ingest_file_from_path ::
  "world \<Rightarrow> path \<Rightarrow> world \<times> (error + ingestion_record)"
where
  "call_ingest_file_from_path w file_path =
     (let (effs, r) =
            ingest_file_from_path (disk w (length (calls w))) (entropy w (draws w)) file_path
      in (w\<lparr>calls := calls w @ [IngestFileFromPath file_path],
             draws := draws w + length (filter (\<lambda>e. e = Uuid4) effs)\<rparr>, r))"

text \<open>
  The loop of \<^verbatim>\<open>run_ingestion\<close>: an exception of the ingestor leaves the loop and the
  function at once.
\<close>

fun ingest_each ::
  "world \<Rightarrow> path list \<Rightarrow> ingestion_record list \<Rightarrow> world \<times> (error + ingestion_record list)"
where
  "ingest_each w [] ingested_results = (w, Inr ingested_results)"
| "ingest_each w (file_path # rest) ingested_results =
     (case call_ingest_file_from_path w file_path of
        (w', Inl e) \<Rightarrow> (w', Inl e)
      | (w', Inr r) \<Rightarrow> ingest_each w' rest (ingested_results @ [r]))"

definition run_ingestion :: "world \<Rightarrow> path \<Rightarrow> world \<times> (error + ingestion_record list)" where
  "run_ingestion w input_dir =
     (case call_list_input_files w input_dir of
        (w', Inl e) \<Rightarrow> (w', Inl e)
      | (w', Inr files) \<Rightarrow> if files = [] then (w', Inr []) else ingest_each w' files [])"

text \<open>
  The state of the file system that the i-th helper call from now will observe, and the
  number the i-th draw from now will return.
\<close>

definition observed :: "world \<Rightarrow> nat \<Rightarrow> filesystem" where
  "observed w i = disk w (length (calls w) + i)"

definition drawn :: "world \<Rightarrow> nat \<Rightarrow> 128 word" where
  "drawn w i = entropy w (draws w + i)"

section \<open>Logging\<close>

text \<open>
  The root logger of Python's \<^verbatim>\<open>logging\<close> holds a list of handler objects. Handlers are
  compared by identity, so the model keeps every handler object created so far in a heap
  (a list, the address of an object being its position) and the logger's list holds
  addresses. A handler is a \<^verbatim>\<open>FileHandler\<close> on a file, the console \<^verbatim>\<open>StreamHandler\<close>, or of
  another kind (one attached by other code), and it is closed or not.

  \<^verbatim>\<open>removeHandler\<close> removes a handler that is in the list, \<^verbatim>\<open>addHandler\<close> appends one that is
  not, \<^verbatim>\<open>close\<close> marks the object closed. Creating the log directory and opening the log
  file are taken to succeed.
\<close>

datatype sink = FileSink string | ConsoleSink | OtherSink

record handler =
  kind :: sink
  closed :: bool

record logging_state =
  heap :: "handler list"
  root_handlers :: "nat list"
  root_level :: int

definition removeHandler :: "nat \<Rightarrow> logging_state \<Rightarrow> logging_state" where
  "removeHandler h st =
     (if h \<in> set (root_handlers st) then st\<lparr>root_handlers := remove1 h (root_handlers st)\<rparr>
      else st)"

definition addHandler :: "nat \<Rightarrow> logging_state \<Rightarrow> logging_state" where
  "addHandler h st =
     (if h \<notin> set (root_handlers st) then st\<lparr>root_handlers := root_handlers st @ [h]\<rparr>
      else st)"

definition close :: "nat \<Rightarrow> logging_state \<Rightarrow> logging_state" where
  "close h st = st\<lparr>heap := (heap st)[h := (heap st ! h)\<lparr>closed := True\<rparr>]\<rparr>"

definition new_handler :: "sink \<Rightarrow> logging_state \<Rightarrow> nat \<times> logging_state" where
  "new_handler k st = (length (heap st), st\<lparr>heap := heap st @ [\<lparr>kind = k, closed = False\<rparr>]\<rparr>)"

text \<open>
  The clock reading of \<^verbatim>\<open>datetime.now()\<close> and the two \<^verbatim>\<open>strftime\<close> formats used:
  \<^verbatim>\<open>%Y%m%d\<close> and \<^verbatim>\<open>%Y%m%d_%H%M%S\<close>, the year in four digits and the other fields in two.
\<close>

record datetime =
  year :: nat
  month :: nat
  day :: nat
  hour :: nat
  minute :: nat
  second :: nat

definition digit :: "nat \<Rightarrow> char" where
  "digit n = ''0123456789'' ! (n mod 10)"

definition two_digits :: "nat \<Rightarrow> string" where
  "two_digits n = [digit (n div 10), digit n]"

definition four_digits :: "nat \<Rightarrow> string" where
  "four_digits n = [digit (n div 1000), digit (n div 100), digit (n div 10), digit n]"

definition strftime_Ymd :: "datetime \<Rightarrow> string" where
  "strftime_Ymd now = four_digits (year now) @ two_digits (month now) @ two_digits (day now)"

definition strftime_Ymd_HMS :: "datetime \<Rightarrow> string" where
  "strftime_Ymd_HMS now =
     strftime_Ymd now @ ''_'' @ two_digits (hour now) @ two_digits (minute now)
       @ two_digits (second now)"

definition build_run_log_paths :: "path \<Rightarrow> datetime \<Rightarrow> string \<Rightarrow> path \<times> path" where
  "build_run_log_paths project_root now app_name =
     (let date_segment = strftime_Ymd now;
          run_segment = strftime_Ymd_HMS now;
          logs_root = joinpath project_root ''logs'';
          run_dir = joinpath (joinpath logs_root date_segment) (app_name @ ''_'' @ run_segment);
          log_file = joinpath run_dir (app_name @ ''_'' @ run_segment @ ''.log'')
      in (run_dir, log_file))"

text \<open>
  The loop \<^verbatim>\<open>for handler in list(root_logger.handlers)\<close>: it runs over a copy of the list
  taken before the first removal.
\<close>

fun reset_handlers :: "nat list \<Rightarrow> logging_state \<Rightarrow> logging_state" where
  "reset_handlers [] st = st"
| "reset_handlers (h # hs) st = reset_handlers hs (close h (removeHandler h st))"

definition configure_run_logger ::
  "path \<Rightarrow> datetime \<Rightarrow> string \<Rightarrow> int \<Rightarrow> logging_state \<Rightarrow> logging_state \<times> path"
where
  "configure_run_logger project_root now app_name level st =
     (let (run_dir, log_file) = build_run_log_paths project_root now app_name;
          st1 = reset_handlers (root_handlers st) st;
          st2 = st1\<lparr>root_level := level\<rparr>;
          (file_handler, st3) = new_handler (FileSink (str log_file)) st2;
          st4 = addHandler file_handler st3;
          (console_handler, st5) = new_handler ConsoleSink st4;
          st6 = addHandler console_handler st5
      in (st6, log_file))"

text \<open>
  A sequence of calls in one process, each with its application name, its level and the
  clock reading it gets.
\<close>

fun configure_run_logger_calls ::
  "path \<Rightarrow> (string \<times> int \<times> datetime) list \<Rightarrow> logging_state \<Rightarrow> logging_state"
where
  "configure_run_logger_calls project_root [] st = st"
| "configure_run_logger_calls project_root ((app_name, level, now) # rest) st =
     configure_run_logger_calls project_root rest
       (fst (configure_run_logger project_root now app_name level st))"

section \<open>The command-line entry point\<close>

text \<open>
  \<^verbatim>\<open>main\<close> returns nothing; what it does is the log records its own statements emit. The
  model returns them when \<^verbatim>\<open>main\<close> returns, and the exception when one leaves \<^verbatim>\<open>main\<close>
  uncaught. The \<^verbatim>\<open>except (FileNotFoundError, NotADirectoryError)\<close> clause selects by the
  class of the exception. \<^verbatim>\<open>logging.INFO\<close> is 20.
\<close>

datatype level = INFO | ERROR

function decimal :: "nat \<Rightarrow> string" where
  "decimal n = (if n < 10 then [digit n] else decimal (n div 10) @ [digit n])"
  by pat_completeness auto
termination
  by (relation "measure id") auto

definition summary :: "ingestion_record \<Rightarrow> level \<times> string" where
  "summary file_info =
     (INFO, ''Ingested file '' @ quoted (name file_info) @ '' ('' @ extension file_info
            @ '') with id='' @ file_id file_info @ '' size='' @ decimal (size_bytes file_info)
            @ '' bytes'')"

definition main ::
  "path \<Rightarrow> datetime \<Rightarrow> logging_state \<Rightarrow> world
     \<Rightarrow> (logging_state \<times> world) \<times> (error + (level \<times> string) list)"
where
  "main project_root now lg w =
     (let input_dir = joinpath project_root ''input'';
          (lg', log_file) = configure_run_logger project_root now ''cli_ingestion'' 20 lg;
          started = [(INFO, ''CLI logging initialised. Run log file: '' @ str log_file)]
      in case run_ingestion w input_dir of
           (w', Inl exc) \<Rightarrow>
             (case exc of
                FileNotFoundError msg \<Rightarrow>
                  ((lg', w'), Inr (started @ [(ERROR, ''Ingestion failed: '' @ msg)]))
              | NotADirectoryError msg \<Rightarrow>
                  ((lg', w'), Inr (started @ [(ERROR, ''Ingestion failed: '' @ msg)]))
              | IsADirectoryError msg \<Rightarrow> ((lg', w'), Inl exc))
         | (w', Inr ingested_files) \<Rightarrow>
             ((lg', w'), Inr (started @ map summary ingested_files)))"

text \<open>The first record \<^verbatim>\<open>main\<close> emits, after configuring the logger.\<close>

definition started :: "path \<Rightarrow> datetime \<Rightarrow> logging_state \<Rightarrow> level \<times> string" where
  "started project_root now lg =
     (INFO, ''CLI logging initialised. Run log file: ''
            @ str (snd (configure_run_logger project_root now ''cli_ingestion'' 20 lg)))"

section \<open>Notions of the specification\<close>

text \<open>
  The normalized allow-set of the specification, and the entries it calls eligible: the
  regular files whose normalized extension is in the normalized allow-set.
\<close>

definition normalized_allow_set :: "string list option \<Rightarrow> string set" where
  "normalized_allow_set allowed_extensions =
     set (map (\<lambda>ext. lower (lstrip ''.'' ext))
            (case allowed_extensions of
               Some exts \<Rightarrow> exts
             | None \<Rightarrow> DEFAULT_ALLOWED_EXTENSIONS))"

definition eligible :: "filesystem \<Rightarrow> string list option \<Rightarrow> path \<Rightarrow> bool" where
  "eligible fs allowed_extensions p \<longleftrightarrow>
     is_file fs p \<and> lower (lstrip ''.'' (suffix p)) \<in> normalized_allow_set allowed_extensions"




section \<open>A sample directory\<close>

text \<open>
  The scenario of the specification: \<^verbatim>\<open>a.txt\<close> (5 bytes), \<^verbatim>\<open>b.pdf\<close> (10 bytes) and
  \<^verbatim>\<open>ignore.exe\<close> (3 bytes), here with a subdirectory and an upper-case name beside them,
  enumerated in no particular order.
\<close>

definition sample_dir :: path where
  "sample_dir = Path True [''srv'', ''input'']"

definition sample_fs :: filesystem where
  "sample_fs =
     [sample_dir \<mapsto> Directory [''b.pdf'', ''ignore.exe'', ''archive'', ''a.txt'', ''REPORT.CSV''],
      joinpath sample_dir ''b.pdf'' \<mapsto> RegularFile [37, 80, 68, 70, 45, 49, 46, 52, 10, 10] 10,
      joinpath sample_dir ''ignore.exe'' \<mapsto> RegularFile [77, 90, 0] 3,
      joinpath sample_dir ''archive'' \<mapsto> Directory [],
      joinpath sample_dir ''a.txt'' \<mapsto> RegularFile [104, 101, 108, 108, 111] 5,
      joinpath sample_dir ''REPORT.CSV'' \<mapsto> RegularFile [49, 44, 50] 3]"

text \<open>
  A file of \<^verbatim>\<open>/proc\<close>: a regular file for \<^verbatim>\<open>is_file\<close>, six bytes when read, size 0 for
  \<^verbatim>\<open>stat\<close>.
\<close>

definition sample_ostype :: path where
  "sample_ostype = Path True [''proc'', ''sys'', ''kernel'', ''ostype'']"

definition sample_procfs :: filesystem where
  "sample_procfs = [sample_ostype \<mapsto> RegularFile [76, 105, 110, 117, 120, 10] 0]"

definition sample_missing :: path where
  "sample_missing = joinpath sample_dir ''absent''"

text \<open>Two version 4 UUIDs that agree on their first eight hexadecimal digits.\<close>

definition sample_uuid_a :: "128 word" where
  "sample_uuid_a = 0x3f2a9c1e5b7d4e0a9c3b1f2e4d5a6b7c"

definition sample_uuid_b :: "128 word" where
  "sample_uuid_b = 0x3f2a9c1e0d414b6f8a27c05e93d1a4f8"

text \<open>
  Worlds over the sample directory: one in which the file system never changes, one in
  which \<^verbatim>\<open>a.txt\<close> is deleted after the listing, and one in which \<^verbatim>\<open>a.txt\<close> is replaced by a
  directory after the listing.
\<close>

definition sample_root :: path where
  "sample_root = Path True [''srv'']"

definition sample_world :: world where
  "sample_world =
     \<lparr> disk = (\<lambda>n. sample_fs), entropy = (\<lambda>n. sample_uuid_a), calls = [], draws = 0 \<rparr>"

definition sample_world_deleted :: world where
  "sample_world_deleted =
     \<lparr> disk = (\<lambda>n. if n = 0 then sample_fs
                    else sample_fs(joinpath sample_dir ''a.txt'' := None)),
       entropy = (\<lambda>n. sample_uuid_a), calls = [], draws = 0 \<rparr>"

definition sample_world_replaced :: world where
  "sample_world_replaced =
     \<lparr> disk = (\<lambda>n. if n = 0 then sample_fs
                    else sample_fs(joinpath sample_dir ''a.txt'' \<mapsto> Directory [])),
       entropy = (\<lambda>n. sample_uuid_a), calls = [], draws = 0 \<rparr>"

definition sample_now :: datetime where
  "sample_now = \<lparr> year = 2025, month = 3, day = 9, hour = 14, minute = 5, second = 7 \<rparr>"

definition sample_later :: datetime where
  "sample_later = \<lparr> year = 2025, month = 3, day = 9, hour = 14, minute = 5, second = 8 \<rparr>"

definition sample_logging :: logging_state where
  "sample_logging =
     \<lparr> heap = [\<lparr>kind = OtherSink, closed = False\<rparr>], root_handlers = [0], root_level = 30 \<rparr>"

section \<open>Properties of strings and paths\<close>





















lemma append_le_append: "(xs @ ys \<le> xs @ zs) \<longleftrightarrow> (ys \<le> (zs::'a::linorder list))"
  by (induction xs) auto

lemma join_sep_snoc: "xs \<noteq> [] \<Longrightarrow> join_sep (xs @ [a]) = join_sep xs @ ''/'' @ a"
  by (induction xs rule: join_sep.induct) auto

lemma str_joinpath:
  "str (joinpath d a) =
     (if components d = [] then (if absolute d then ''/'' else [])
      else (if absolute d then ''/'' else []) @ join_sep (components d) @ ''/'') @ a"
  by (simp add: str_def joinpath_def join_sep_snoc)

lemma cparts_joinpath: "cparts (joinpath d a) = cparts d @ [a]"
  by (simp add: cparts_def joinpath_def)

lemma siblings_order:
  "cparts (joinpath d a) \<le> cparts (joinpath d b) \<longleftrightarrow> str (joinpath d a) \<le> str (joinpath d b)"
  by (auto simp: cparts_joinpath str_joinpath append_le_append)

section \<open>Properties of the file system observations\<close>

lemma is_dir_exists: "is_dir fs p \<Longrightarrow> exists fs p"
  by (auto simp: is_dir_def exists_def split: option.splits)

lemma is_file_exists: "is_file fs p \<Longrightarrow> exists fs p"
  by (auto simp: is_file_def exists_def split: option.splits)

lemma is_file_not_dir: "is_file fs p \<Longrightarrow> \<not> is_dir fs p"
  by (auto simp: is_file_def is_dir_def split: option.splits node.splits)

section \<open>The lister\<close>

lemma scan_entries_eq:
  "scan_entries fs X ps (effs, m) =
     (effs @ map IsFile ps,
      m @ filter (\<lambda>p. is_file fs p \<and> lower (lstrip ''.'' (suffix p)) \<in> X) ps)"
  by (induction ps arbitrary: effs m) (auto simp: Let_def)

lemma list_input_files_dir:
  assumes "is_dir fs d"
  shows "list_input_files fs d a =
           ([Exists d, IsDir d, Iterdir d] @ map IsFile (iterdir fs d),
            Inr (sort_key cparts (filter (eligible fs a) (iterdir fs d))))"
  using assms is_dir_exists[OF assms]
  by (simp add: list_input_files_def scan_entries_eq eligible_def[abs_def]
      normalized_allow_set_def Let_def)

lemmas sample_defs =
  sample_fs_def sample_dir_def exists_def is_dir_def is_file_def iterdir_def joinpath_def
  read_bytes_def st_size_def

lemmas string_defs =
  lower_def lower_char_def uppercase_letters_def lowercase_letters_def lstrip_def suffix_def
  path_name_def rfind_def cparts_def str_def
  quoted_def

lemma sample_listing:
  "snd (list_input_files sample_fs sample_dir None) =
     Inr [joinpath sample_dir ''REPORT.CSV'', joinpath sample_dir ''a.txt'',
          joinpath sample_dir ''b.pdf'']"
  by (simp add: list_input_files_def sample_defs string_defs DEFAULT_ALLOWED_EXTENSIONS_def
      Let_def)

lemma sample_is_dir: "is_dir sample_fs sample_dir"
  by (simp add: sample_defs)

text \<open>
  Claim C1. For a directory, \<open>list_input_files\<close> returns a list and raises nothing. The
  list holds exactly the entries of the directory that are regular files with a normalized
  extension in the normalized allow-set, each as often as the directory enumerates it;
  none of them is a directory or another kind of node. The list is ascending in the order
  of paths, which for the entries of one directory is also the lexicographic order of the
  path strings. When no entry is eligible the list is empty.
\<close>

theorem list_input_files_exact_sorted:
  assumes "is_dir fs input_dir"
  shows "\<exists>files.
           snd (list_input_files fs input_dir allowed_extensions) = Inr files
         \<and> mset files = filter_mset (eligible fs allowed_extensions) (mset (iterdir fs input_dir))
         \<and> set files = {p \<in> set (iterdir fs input_dir). eligible fs allowed_extensions p}
         \<and> (\<forall>p \<in> set files. is_file fs p \<and> \<not> is_dir fs p)
         \<and> sorted (map cparts files)
         \<and> sorted (map str files)
         \<and> ((\<forall>p \<in> set (iterdir fs input_dir). \<not> eligible fs allowed_extensions p)
              \<longrightarrow> files = [])"
proof -
  let ?files = "sort_key cparts (filter (eligible fs allowed_extensions) (iterdir fs input_dir))"
  have res: "snd (list_input_files fs input_dir allowed_extensions) = Inr ?files"
    by (simp add: list_input_files_dir[OF assms])
  have ms: "mset ?files
      = filter_mset (eligible fs allowed_extensions) (mset (iterdir fs input_dir))"
    by simp
  have st: "set ?files = {p \<in> set (iterdir fs input_dir). eligible fs allowed_extensions p}"
    by auto
  have reg: "\<forall>p \<in> set ?files. is_file fs p \<and> \<not> is_dir fs p"
    by (auto simp: eligible_def is_file_not_dir)
  have so: "sorted (map cparts ?files)"
    by (rule sorted_sort_key)
  have sib: "set ?files \<subseteq> range (joinpath input_dir)"
    by (auto simp: iterdir_def split: option.splits node.splits)
  have "sorted_wrt (\<lambda>p q. cparts p \<le> cparts q) ?files"
    using so by (simp add: sorted_map)
  then have "sorted_wrt (\<lambda>p q. str p \<le> str q) ?files"
  proof (rule sorted_wrt_mono_rel[rotated])
    fix p q assume "p \<in> set ?files" "q \<in> set ?files" "cparts p \<le> cparts q"
    with sib obtain a b where "p = joinpath input_dir a" "q = joinpath input_dir b"
      by blast
    with \<open>cparts p \<le> cparts q\<close> show "str p \<le> str q"
      by (simp add: siblings_order)
  qed
  then have so': "sorted (map str ?files)"
    by (simp add: sorted_map)
  have emp: "(\<forall>p \<in> set (iterdir fs input_dir). \<not> eligible fs allowed_extensions p)
              \<longrightarrow> ?files = []"
    by (auto simp: filter_empty_conv)
  from res ms st reg so so' emp show ?thesis
    by blast
qed

theorem list_input_files_exact_sorted_witness:
  "is_dir sample_fs sample_dir
   \<and> snd (list_input_files sample_fs sample_dir None) =
       Inr [joinpath sample_dir ''REPORT.CSV'', joinpath sample_dir ''a.txt'',
            joinpath sample_dir ''b.pdf'']
   \<and> (\<exists>files.
           snd (list_input_files sample_fs sample_dir None) = Inr files
         \<and> mset files = filter_mset (eligible sample_fs None) (mset (iterdir sample_fs sample_dir))
         \<and> set files = {p \<in> set (iterdir sample_fs sample_dir). eligible sample_fs None p}
         \<and> (\<forall>p \<in> set files. is_file sample_fs p \<and> \<not> is_dir sample_fs p)
         \<and> sorted (map cparts files)
         \<and> sorted (map str files)
         \<and> ((\<forall>p \<in> set (iterdir sample_fs sample_dir). \<not> eligible sample_fs None p)
              \<longrightarrow> files = []))"
  using sample_is_dir sample_listing list_input_files_exact_sorted[OF sample_is_dir, of None]
  by (intro conjI)

text \<open>
  Claim C10. For a directory, \<open>list_input_files\<close> with the empty list as allow-list
  returns the empty list: only the omitted allow-list (\<open>None\<close>) stands for the default
  extensions.
\<close>

theorem list_input_files_empty_allow_list:
  assumes "is_dir fs input_dir"
  shows "snd (list_input_files fs input_dir (Some [])) = Inr []
       \<and> snd (list_input_files fs input_dir None)
           = snd (list_input_files fs input_dir (Some DEFAULT_ALLOWED_EXTENSIONS))"
  by (simp add: list_input_files_dir[OF assms] eligible_def[abs_def] normalized_allow_set_def)

theorem list_input_files_empty_allow_list_witness:
  "is_dir sample_fs sample_dir
   \<and> snd (list_input_files sample_fs sample_dir (Some [])) = Inr []
   \<and> snd (list_input_files sample_fs sample_dir None)
       = snd (list_input_files sample_fs sample_dir (Some DEFAULT_ALLOWED_EXTENSIONS))
   \<and> snd (list_input_files sample_fs sample_dir None) \<noteq> Inr []"
proof -
  have "snd (list_input_files sample_fs sample_dir None) \<noteq> Inr []"
    by (simp add: list_input_files_def sample_defs string_defs DEFAULT_ALLOWED_EXTENSIONS_def
      Let_def)
  with sample_is_dir list_input_files_empty_allow_list[OF sample_is_dir] show ?thesis
    by (intro conjI) simp_all
qed

text \<open>
  Claim C4. \<open>list_input_files\<close> raises \<^verbatim>\<open>FileNotFoundError\<close> (the specification's
  \<^verbatim>\<open>DirectoryNotFound\<close>) exactly when the path does not exist, and \<^verbatim>\<open>NotADirectoryError\<close>
  exactly when it exists and is not a directory. Before the first it has only asked whether
  the path exists, before the second only that and whether it is a directory: nothing is
  enumerated and no entry is looked at. It raises nothing else.
\<close>

theorem list_input_files_errors:
  "(\<not> exists fs input_dir \<longrightarrow>
      list_input_files fs input_dir allowed_extensions =
        ([Exists input_dir],
         Inl (FileNotFoundError
               (''Input directory '' @ quoted (str input_dir) @ '' was not found.''))))
   \<and> (exists fs input_dir \<and> \<not> is_dir fs input_dir \<longrightarrow>
      list_input_files fs input_dir allowed_extensions =
        ([Exists input_dir, IsDir input_dir],
         Inl (NotADirectoryError (quoted (str input_dir) @ '' is not a directory.''))))
   \<and> ((\<exists>msg. snd (list_input_files fs input_dir allowed_extensions)
                = Inl (FileNotFoundError msg)) \<longleftrightarrow> \<not> exists fs input_dir)
   \<and> ((\<exists>msg. snd (list_input_files fs input_dir allowed_extensions)
                = Inl (NotADirectoryError msg))
        \<longleftrightarrow> exists fs input_dir \<and> \<not> is_dir fs input_dir)
   \<and> ((\<exists>e. snd (list_input_files fs input_dir allowed_extensions) = Inl e)
        \<longleftrightarrow> \<not> is_dir fs input_dir)"
proof (cases "is_dir fs input_dir")
  case True
  then show ?thesis
    using is_dir_exists[OF True] by (simp add: list_input_files_dir)
next
  case False
  then show ?thesis
    by (simp add: list_input_files_def)
qed

theorem list_input_files_errors_witness:
  "\<not> exists sample_fs sample_missing
   \<and> list_input_files sample_fs sample_missing None =
       ([Exists sample_missing],
        Inl (FileNotFoundError (''Input directory '' @ quoted ''/srv/input/absent''
               @ '' was not found.'')))
   \<and> exists sample_fs (joinpath sample_dir ''a.txt'')
   \<and> \<not> is_dir sample_fs (joinpath sample_dir ''a.txt'')
   \<and> list_input_files sample_fs (joinpath sample_dir ''a.txt'') None =
       ([Exists (joinpath sample_dir ''a.txt''), IsDir (joinpath sample_dir ''a.txt'')],
        Inl (NotADirectoryError (quoted ''/srv/input/a.txt'' @ '' is not a directory.'')))"
proof -
  have 1: "\<not> exists sample_fs sample_missing"
    by (simp add: sample_defs sample_missing_def)
  have 2: "exists sample_fs (joinpath sample_dir ''a.txt'')"
    and 3: "\<not> is_dir sample_fs (joinpath sample_dir ''a.txt'')"
    by (simp_all add: sample_defs)
  have 4: "str sample_missing = ''/srv/input/absent''"
    and 5: "str (joinpath sample_dir ''a.txt'') = ''/srv/input/a.txt''"
    by (simp_all add: sample_missing_def sample_dir_def joinpath_def str_def)
  show ?thesis
    using 1 2 3
      list_input_files_errors[of sample_fs sample_missing None]
      list_input_files_errors[of sample_fs "joinpath sample_dir ''a.txt''" None]
    by (simp add: 4 5)
qed

section \<open>The ingestor\<close>

lemma ingest_file_from_path_file:
  assumes "is_file fs p"
  shows "ingest_file_from_path fs u p =
           ([Exists p, IsFile p, ReadBytes p, Stat p, Uuid4],
            Inr \<lparr> file_id = ''F-'' @ take 8 (hex u),
                  name = path_name p,
                  extension = lower (lstrip ''.'' (suffix p)),
                  source = ''local_folder'',
                  path = str p,
                  size_bytes = st_size fs p,
                  content_bytes = read_bytes fs p \<rparr>)"
  using assms is_file_exists[OF assms]
  by (simp add: ingest_file_from_path_def Let_def)

lemma ingest_file_from_path_not_file:
  assumes "\<not> is_file fs p"
  shows "ingest_file_from_path fs u p =
           (if \<not> exists fs p
            then ([Exists p],
                  Inl (FileNotFoundError (''File '' @ quoted (str p) @ '' does not exist.'')))
            else ([Exists p, IsFile p],
                  Inl (IsADirectoryError (quoted (str p) @ '' is not a file.''))))"
  using assms by (simp add: ingest_file_from_path_def)

text \<open>
  Claim C2, amended. For a regular file, \<open>ingest_file_from_path\<close> reads the file and then
  asks \<^verbatim>\<open>stat\<close> for its size, and returns a record whose \<open>content_bytes\<close> are the bytes read
  and whose \<open>size_bytes\<close> is the size \<^verbatim>\<open>stat\<close> reports. \<open>size_bytes\<close> is the length of
  \<open>content_bytes\<close> exactly when the size reported is the number of the bytes read.
\<close>

theorem ingest_file_from_path_size:
  assumes "is_file fs p"
  shows "\<exists>r. ingest_file_from_path fs uuid p
                = ([Exists p, IsFile p, ReadBytes p, Stat p, Uuid4], Inr r)
           \<and> content_bytes r = read_bytes fs p
           \<and> size_bytes r = st_size fs p
           \<and> (\<forall>bs n. fs p = Some (RegularFile bs n) \<longrightarrow> content_bytes r = bs \<and> size_bytes r = n)
           \<and> (size_bytes r = length (content_bytes r)
                \<longleftrightarrow> st_size fs p = length (read_bytes fs p))"
  by (simp add: ingest_file_from_path_file[OF assms] read_bytes_def st_size_def)

lemma sample_a_is_file: "is_file sample_fs (joinpath sample_dir ''a.txt'')"
  by (simp add: sample_defs)

lemma sample_a_node:
  "sample_fs (joinpath sample_dir ''a.txt'') = Some (RegularFile [104, 101, 108, 108, 111] 5)"
  by (simp add: sample_defs)

theorem ingest_file_from_path_size_witness:
  "is_file sample_fs (joinpath sample_dir ''a.txt'')
   \<and> (\<exists>r. snd (ingest_file_from_path sample_fs sample_uuid_a (joinpath sample_dir ''a.txt''))
                = Inr r
           \<and> content_bytes r = [104, 101, 108, 108, 111]
           \<and> size_bytes r = 5
           \<and> size_bytes r = length (content_bytes r))"
proof -
  from ingest_file_from_path_size[OF sample_a_is_file, of sample_uuid_a]
  obtain r where
    r: "ingest_file_from_path sample_fs sample_uuid_a (joinpath sample_dir ''a.txt'')
          = ([Exists (joinpath sample_dir ''a.txt''), IsFile (joinpath sample_dir ''a.txt''),
              ReadBytes (joinpath sample_dir ''a.txt''), Stat (joinpath sample_dir ''a.txt''),
              Uuid4], Inr r)"
    and n: "\<forall>bs n. sample_fs (joinpath sample_dir ''a.txt'') = Some (RegularFile bs n)
                     \<longrightarrow> content_bytes r = bs \<and> size_bytes r = n"
    by blast
  from n sample_a_node have "content_bytes r = [104, 101, 108, 108, 111]" "size_bytes r = 5"
    by simp_all
  with r have "\<exists>r. snd (ingest_file_from_path sample_fs sample_uuid_a
                          (joinpath sample_dir ''a.txt'')) = Inr r
           \<and> content_bytes r = [104, 101, 108, 108, 111]
           \<and> size_bytes r = 5
           \<and> size_bytes r = length (content_bytes r)"
    by simp
  with sample_a_is_file show ?thesis by (intro conjI)
qed

text \<open>
  Claim C2 as stated has \<open>size_bytes\<close> equal to the length of \<open>content_bytes\<close> for every
  regular file. For the file of \<^verbatim>\<open>/proc\<close> below, six bytes are read and \<^verbatim>\<open>stat\<close> reports the
  size 0: the record holds six bytes of content and the size 0.
\<close>

lemma sample_ostype_is_file: "is_file sample_procfs sample_ostype"
  by (simp add: sample_procfs_def is_file_def)

theorem ingest_file_from_path_size_counterexample:
  "is_file sample_procfs sample_ostype
   \<and> size_bytes (projr (snd (ingest_file_from_path sample_procfs sample_uuid_a sample_ostype)))
       = 0
   \<and> content_bytes (projr (snd (ingest_file_from_path sample_procfs sample_uuid_a sample_ostype)))
       = [76, 105, 110, 117, 120, 10]
   \<and> snd (ingest_file_from_path sample_procfs sample_uuid_a sample_ostype) =
       Inr \<lparr> file_id = ''F-'' @ take 8 (hex sample_uuid_a),
             name = ''ostype'',
             extension = [],
             source = ''local_folder'',
             path = ''/proc/sys/kernel/ostype'',
             size_bytes = 0,
             content_bytes = [76, 105, 110, 117, 120, 10] \<rparr>"
proof -
  have e: "lower (lstrip ''.'' (suffix sample_ostype)) = []"
    by (simp add: sample_ostype_def suffix_def path_name_def rfind_def lstrip_def lower_def)
  have n: "path_name sample_ostype = ''ostype''"
    and t: "str sample_ostype = ''/proc/sys/kernel/ostype''"
    by (simp_all add: sample_ostype_def path_name_def str_def)
  have b: "read_bytes sample_procfs sample_ostype = [76, 105, 110, 117, 120, 10]"
    and z: "st_size sample_procfs sample_ostype = 0"
    by (simp_all add: sample_procfs_def read_bytes_def st_size_def)
  show ?thesis
    by (simp add: ingest_file_from_path_file[OF sample_ostype_is_file] sample_ostype_is_file
        e n t b z)
qed

text \<open>
  Claim C5. \<open>ingest_file_from_path\<close> raises \<^verbatim>\<open>FileNotFoundError\<close> exactly when the path does
  not exist and \<^verbatim>\<open>IsADirectoryError\<close> (the specification's \<^verbatim>\<open>NotAFile\<close>) exactly when it exists
  and is not a regular file. Before the first it has only asked whether the path exists,
  before the second only that and whether it is a file; whenever it raises, it has read no
  content, asked for no size and drawn no identifier. No observation changes the file
  system.
\<close>

theorem ingest_file_from_path_errors:
  "(\<not> exists fs p \<longrightarrow>
      ingest_file_from_path fs uuid p =
        ([Exists p],
         Inl (FileNotFoundError (''File '' @ quoted (str p) @ '' does not exist.''))))
   \<and> (exists fs p \<and> \<not> is_file fs p \<longrightarrow>
      ingest_file_from_path fs uuid p =
        ([Exists p, IsFile p],
         Inl (IsADirectoryError (quoted (str p) @ '' is not a file.''))))
   \<and> ((\<exists>msg. snd (ingest_file_from_path fs uuid p) = Inl (FileNotFoundError msg))
        \<longleftrightarrow> \<not> exists fs p)
   \<and> ((\<exists>msg. snd (ingest_file_from_path fs uuid p) = Inl (IsADirectoryError msg))
        \<longleftrightarrow> exists fs p \<and> \<not> is_file fs p)
   \<and> ((\<exists>e. snd (ingest_file_from_path fs uuid p) = Inl e) \<longleftrightarrow> \<not> is_file fs p)
   \<and> ((\<exists>e. snd (ingest_file_from_path fs uuid p) = Inl e) \<longrightarrow>
        set (fst (ingest_file_from_path fs uuid p)) \<inter> {ReadBytes p, Stat p, Uuid4} = {})"
proof (cases "is_file fs p")
  case True
  then show ?thesis
    using is_file_exists[OF True] by (simp add: ingest_file_from_path_file)
next
  case False
  then show ?thesis
    by (simp add: ingest_file_from_path_not_file)
qed

theorem ingest_file_from_path_errors_witness:
  "\<not> exists sample_fs sample_missing
   \<and> ingest_file_from_path sample_fs sample_uuid_a sample_missing =
       ([Exists sample_missing],
        Inl (FileNotFoundError (''File '' @ quoted ''/srv/input/absent'' @ '' does not exist.'')))
   \<and> exists sample_fs sample_dir
   \<and> \<not> is_file sample_fs sample_dir
   \<and> ingest_file_from_path sample_fs sample_uuid_a sample_dir =
       ([Exists sample_dir, IsFile sample_dir],
        Inl (IsADirectoryError (quoted ''/srv/input'' @ '' is not a file.'')))"
proof -
  have 1: "\<not> exists sample_fs sample_missing"
    by (simp add: sample_defs sample_missing_def)
  have 2: "exists sample_fs sample_dir" and 3: "\<not> is_file sample_fs sample_dir"
    by (simp_all add: sample_defs)
  have 4: "str sample_missing = ''/srv/input/absent''"
    and 5: "str sample_dir = ''/srv/input''"
    by (simp_all add: sample_missing_def sample_dir_def joinpath_def str_def)
  show ?thesis
    using 1 2 3
      ingest_file_from_path_errors[of sample_fs sample_missing sample_uuid_a]
      ingest_file_from_path_errors[of sample_fs sample_dir sample_uuid_a]
    by (simp add: 4 5)
qed
















section \<open>Identifiers\<close>

lemma hex_digit_in: "n < 16 \<Longrightarrow> hex_digit n \<in> set ''0123456789abcdef''"
  unfolding hex_digit_def by (rule nth_mem) simp

lemma hex_digit_inj: "m < 16 \<Longrightarrow> n < 16 \<Longrightarrow> hex_digit m = hex_digit n \<longleftrightarrow> m = n"
  unfolding hex_digit_def by (rule nth_eq_iff_index_eq) simp_all

lemma take_hex:
  "take 8 (hex u) = map (\<lambda>k. hex_digit ((unat u div 16 ^ (31 - k)) mod 16)) [0..<8]"
  by (simp add: hex_def take_map)

lemma digits_inj:
  "m < 16 ^ n \<Longrightarrow> m' < 16 ^ n
   \<Longrightarrow> (\<And>j. j < n \<Longrightarrow> (m div 16 ^ j) mod 16 = (m' div 16 ^ j) mod (16::nat))
   \<Longrightarrow> m = m'"
proof (induction n arbitrary: m m')
  case 0
  then show ?case by simp
next
  case (Suc n)
  have a: "m div 16 < 16 ^ n" and b: "m' div 16 < 16 ^ n"
    using Suc.prems(1,2) by (simp_all add: less_mult_imp_div_less mult.commute)
  have c: "(m div 16 div 16 ^ j) mod 16 = (m' div 16 div 16 ^ j) mod 16" if "j < n" for j
    using Suc.prems(3)[of "Suc j"] that by (simp add: div_mult2_eq)
  have d: "m div 16 = m' div 16"
    using Suc.IH[OF a b c] by simp
  have e: "m mod 16 = m' mod 16"
    using Suc.prems(3)[of 0] by simp
  show ?case
    using d e by (metis div_mult_mod_eq)
qed

lemma leading_digit:
  "k < 8 \<Longrightarrow> (n div 16 ^ (31 - k)) mod 16 = ((n div 2 ^ 96) div 16 ^ (7 - k)) mod (16::nat)"
proof -
  assume "k < 8"
  then have "(16::nat) ^ (31 - k) = 2 ^ 96 * 16 ^ (7 - k)"
  proof -
    assume "k < 8"
    then have "31 - k = 24 + (7 - k)" by simp
    then have "(16::nat) ^ (31 - k) = 16 ^ 24 * 16 ^ (7 - k)"
      by (simp only: power_add)
    then show ?thesis by simp
  qed
  then show ?thesis
    by (simp add: div_mult2_eq)
qed

lemma leading_bound: "unat (u :: 128 word) div 2 ^ 96 < 16 ^ 8"
proof -
  have "unat u < 2 ^ 128"
    using unsigned_less[of u] by simp
  then show ?thesis
    by (simp add: less_mult_imp_div_less)
qed

lemma take_hex_eq_iff:
  "take 8 (hex u) = take 8 (hex v) \<longleftrightarrow> unat u div 2 ^ 96 = unat v div 2 ^ 96"
proof
  assume eq: "take 8 (hex u) = take 8 (hex v)"
  have dig: "((unat u div 2 ^ 96) div 16 ^ j) mod 16 = ((unat v div 2 ^ 96) div 16 ^ j) mod 16"
    if "j < 8" for j
  proof -
    let ?k = "7 - j"
    have k: "?k < 8" "7 - ?k = j" using that by simp_all
    from eq have "hex_digit ((unat u div 16 ^ (31 - ?k)) mod 16)
                = hex_digit ((unat v div 16 ^ (31 - ?k)) mod 16)"
      using k(1) by (simp add: take_hex)
    then have "(unat u div 16 ^ (31 - ?k)) mod 16 = (unat v div 16 ^ (31 - ?k)) mod 16"
      by (simp add: hex_digit_inj)
    then show ?thesis
      using leading_digit[OF k(1)] k(2) by simp
  qed
  show "unat u div 2 ^ 96 = unat v div 2 ^ 96"
    by (rule digits_inj[OF leading_bound leading_bound dig])
next
  assume "unat u div 2 ^ 96 = unat v div 2 ^ 96"
  then show "take 8 (hex u) = take 8 (hex v)"
    by (simp add: take_hex leading_digit)
qed

lemma take_hex_format:
  "length (take 8 (hex u)) = 8 \<and> set (take 8 (hex u)) \<subseteq> set ''0123456789abcdef''"
proof -
  have "hex_digit ((unat u div 16 ^ (31 - k)) mod 16) \<in> set ''0123456789abcdef''" for k
    by (rule hex_digit_in) simp
  then show ?thesis
    unfolding take_hex by (auto simp del: set_simps simp add: image_subset_iff)
qed

lemma upt8: "[0..<8] = [0, 1, 2, 3, 4, 5, 6, 7::nat]"
  by (simp add: upt_conv_Cons)

lemma sample_uuids_differ: "sample_uuid_a \<noteq> sample_uuid_b"
  by (simp add: sample_uuid_a_def sample_uuid_b_def)

lemma sample_uuids_leading:
  "unat sample_uuid_a div 2 ^ 96 = unat sample_uuid_b div 2 ^ 96"
  by (simp add: sample_uuid_a_def sample_uuid_b_def)

text \<open>
  Claim C8, as stated, fails: two ingestions of the same file that draw different UUIDs
  can carry the same \<open>file_id\<close>, since only the first eight hexadecimal digits of the UUID
  are kept.
\<close>

theorem file_id_collision_counterexample:
  "sample_uuid_a \<noteq> sample_uuid_b
   \<and> snd (ingest_file_from_path sample_fs sample_uuid_a (joinpath sample_dir ''a.txt''))
     = snd (ingest_file_from_path sample_fs sample_uuid_b (joinpath sample_dir ''a.txt''))
   \<and> file_id (projr (snd (ingest_file_from_path sample_fs sample_uuid_a
                            (joinpath sample_dir ''a.txt'')))) = ''F-3f2a9c1e''
   \<and> file_id (projr (snd (ingest_file_from_path sample_fs sample_uuid_b
                            (joinpath sample_dir ''a.txt'')))) = ''F-3f2a9c1e''"
proof -
  have a: "take 8 (hex sample_uuid_a) = ''3f2a9c1e''"
    unfolding take_hex upt8 by (simp add: hex_digit_def sample_uuid_a_def)
  have b: "take 8 (hex sample_uuid_b) = ''3f2a9c1e''"
    unfolding take_hex upt8 by (simp add: hex_digit_def sample_uuid_b_def)
  show ?thesis
    using sample_uuids_differ
    by (simp add: ingest_file_from_path_file[OF sample_a_is_file] a b)
qed

text \<open>
  Claim C8, amended. Every \<open>file_id\<close> is \<^verbatim>\<open>F-\<close> followed by eight lowercase hexadecimal
  digits, and every successful ingestion draws one UUID. Two ingestions of the same path
  in the same state of the file system return records that agree on \<open>name\<close>,
  \<open>extension\<close>, \<open>source\<close>, \<open>path\<close>, \<open>size_bytes\<close> and \<open>content_bytes\<close>; their
  \<open>file_id\<close>s differ exactly when the two UUIDs differ in their leading 32 bits.
\<close>

theorem file_id_format_and_freshness:
  assumes "is_file fs p"
  shows "\<exists>r1 r2.
           ingest_file_from_path fs u1 p
             = ([Exists p, IsFile p, ReadBytes p, Stat p, Uuid4], Inr r1)
         \<and> ingest_file_from_path fs u2 p
             = ([Exists p, IsFile p, ReadBytes p, Stat p, Uuid4], Inr r2)
         \<and> (\<exists>h. file_id r1 = ''F-'' @ h \<and> length h = 8
                \<and> set h \<subseteq> set ''0123456789abcdef'')
         \<and> name r1 = name r2 \<and> extension r1 = extension r2
         \<and> source r1 = source r2 \<and> path r1 = path r2
         \<and> size_bytes r1 = size_bytes r2 \<and> content_bytes r1 = content_bytes r2
         \<and> (file_id r1 = file_id r2 \<longleftrightarrow> unat u1 div 2 ^ 96 = unat u2 div 2 ^ 96)"
  using take_hex_format[of u1]
  by (simp add: ingest_file_from_path_file[OF assms] take_hex_eq_iff del: set_simps)

theorem file_id_format_and_freshness_witness:
  "is_file sample_fs (joinpath sample_dir ''a.txt'')
   \<and> (\<exists>r1 r2.
           ingest_file_from_path sample_fs sample_uuid_a (joinpath sample_dir ''a.txt'')
             = ([Exists (joinpath sample_dir ''a.txt''), IsFile (joinpath sample_dir ''a.txt''),
                 ReadBytes (joinpath sample_dir ''a.txt''), Stat (joinpath sample_dir ''a.txt''),
                 Uuid4], Inr r1)
         \<and> ingest_file_from_path sample_fs 0 (joinpath sample_dir ''a.txt'')
             = ([Exists (joinpath sample_dir ''a.txt''), IsFile (joinpath sample_dir ''a.txt''),
                 ReadBytes (joinpath sample_dir ''a.txt''), Stat (joinpath sample_dir ''a.txt''),
                 Uuid4], Inr r2)
         \<and> (\<exists>h. file_id r1 = ''F-'' @ h \<and> length h = 8
                \<and> set h \<subseteq> set ''0123456789abcdef'')
         \<and> name r1 = name r2 \<and> extension r1 = extension r2
         \<and> source r1 = source r2 \<and> path r1 = path r2
         \<and> size_bytes r1 = size_bytes r2 \<and> content_bytes r1 = content_bytes r2
         \<and> (file_id r1 = file_id r2
              \<longleftrightarrow> unat sample_uuid_a div 2 ^ 96 = unat (0 :: 128 word) div 2 ^ 96))
   \<and> unat sample_uuid_a div 2 ^ 96 \<noteq> unat (0 :: 128 word) div 2 ^ 96"
proof -
  have "unat sample_uuid_a div 2 ^ 96 \<noteq> unat (0 :: 128 word) div 2 ^ 96"
    by (simp add: sample_uuid_a_def)
  with sample_a_is_file
    file_id_format_and_freshness[OF sample_a_is_file, of sample_uuid_a 0]
  show ?thesis by (intro conjI)
qed

section \<open>The runner\<close>

lemma call_ingest_ok:
  assumes "is_file (disk w (length (calls w))) p"
  shows "call_ingest_file_from_path w p =
           (w\<lparr>calls := calls w @ [IngestFileFromPath p], draws := Suc (draws w)\<rparr>,
            Inr (projr (snd (ingest_file_from_path (disk w (length (calls w)))
                               (entropy w (draws w)) p))))"
  by (simp add: call_ingest_file_from_path_def ingest_file_from_path_file[OF assms])

lemma call_ingest_fail:
  assumes "\<not> is_file (disk w (length (calls w))) p"
  shows "call_ingest_file_from_path w p =
           (w\<lparr>calls := calls w @ [IngestFileFromPath p]\<rparr>,
            Inl (projl (snd (ingest_file_from_path (disk w (length (calls w)))
                               (entropy w (draws w)) p))))"
  by (simp add: call_ingest_file_from_path_def ingest_file_from_path_not_file[OF assms])

lemma map_upt_Suc: "map g [0..<Suc n] = g 0 # map (\<lambda>i. g (Suc i)) [0..<n]"
  by (simp add: upt_conv_Cons map_Suc_upt[symmetric] del: upt_Suc)

lemma ingest_each_ok:
  "(\<And>i. i < length files \<Longrightarrow> is_file (disk w (length (calls w) + i)) (files ! i))
   \<Longrightarrow> ingest_each w files acc =
        (w\<lparr>calls := calls w @ map IngestFileFromPath files,
           draws := draws w + length files\<rparr>,
         Inr (acc @ map (\<lambda>i. projr (snd (ingest_file_from_path
                                  (disk w (length (calls w) + i))
                                  (entropy w (draws w + i)) (files ! i))))
                     [0..<length files]))"
proof (induction files arbitrary: w acc)
  case Nil
  then show ?case by simp
next
  case (Cons f rest)
  let ?w1 = "w\<lparr>calls := calls w @ [IngestFileFromPath f], draws := Suc (draws w)\<rparr>"
  have f0: "is_file (disk w (length (calls w))) f"
    using Cons.prems[of 0] by simp
  have rest: "is_file (disk ?w1 (length (calls ?w1) + i)) (rest ! i)" if "i < length rest" for i
    using Cons.prems[of "Suc i"] that by simp
  show ?case
    by (simp add: call_ingest_ok[OF f0] Cons.IH[OF rest] map_upt_Suc del: upt_Suc)
qed

lemma ingest_each_fail:
  "k < length files
   \<Longrightarrow> \<not> is_file (disk w (length (calls w) + k)) (files ! k)
   \<Longrightarrow> (\<And>i. i < k \<Longrightarrow> is_file (disk w (length (calls w) + i)) (files ! i))
   \<Longrightarrow> ingest_each w files acc =
        (w\<lparr>calls := calls w @ map IngestFileFromPath (take (Suc k) files),
           draws := draws w + k\<rparr>,
         Inl (projl (snd (ingest_file_from_path (disk w (length (calls w) + k))
                            (entropy w (draws w + k)) (files ! k)))))"
proof (induction files arbitrary: w acc k)
  case Nil
  then show ?case by simp
next
  case (Cons f rest)
  show ?case
  proof (cases k)
    case 0
    with Cons.prems(2) have "\<not> is_file (disk w (length (calls w))) f" by simp
    then show ?thesis
      using 0 by (simp add: call_ingest_fail)
  next
    case (Suc j)
    let ?w1 = "w\<lparr>calls := calls w @ [IngestFileFromPath f], draws := Suc (draws w)\<rparr>"
    have f0: "is_file (disk w (length (calls w))) f"
      using Cons.prems(3)[of 0] Suc by simp
    have j: "j < length rest" using Cons.prems(1) Suc by simp
    have bad: "\<not> is_file (disk ?w1 (length (calls ?w1) + j)) (rest ! j)"
      using Cons.prems(2) Suc by simp
    have good: "is_file (disk ?w1 (length (calls ?w1) + i)) (rest ! i)" if "i < j" for i
      using Cons.prems(3)[of "Suc i"] that Suc by simp
    show ?thesis
      using Suc by (simp add: call_ingest_ok[OF f0] Cons.IH[OF j bad good])
  qed
qed

lemma run_ingestion_listing_fails:
  assumes "snd (list_input_files (observed w 0) d None) = Inl e"
  shows "run_ingestion w d = (w\<lparr>calls := calls w @ [ListInputFiles d]\<rparr>, Inl e)"
  using assms
  by (simp add: run_ingestion_def call_list_input_files_def observed_def split_def)

lemma run_ingestion_all_ingested:
  assumes l: "snd (list_input_files (observed w 0) d None) = Inr files"
    and ok: "\<And>i. i < length files \<Longrightarrow> is_file (observed w (Suc i)) (files ! i)"
  shows "run_ingestion w d =
           (w\<lparr>calls := calls w @ ListInputFiles d # map IngestFileFromPath files,
              draws := draws w + length files\<rparr>,
            Inr (map (\<lambda>i. projr (snd (ingest_file_from_path (observed w (Suc i)) (drawn w i)
                                        (files ! i))))
                   [0..<length files]))"
proof -
  let ?w1 = "w\<lparr>calls := calls w @ [ListInputFiles d]\<rparr>"
  have ok1: "is_file (disk ?w1 (length (calls ?w1) + i)) (files ! i)" if "i < length files" for i
    using ok[OF that] by (simp add: observed_def)
  show ?thesis
    using l
    by (simp add: run_ingestion_def call_list_input_files_def split_def
          ingest_each_ok[OF ok1] observed_def drawn_def del: upt_Suc ingest_each.simps)
qed

lemma run_ingestion_aborts:
  assumes l: "snd (list_input_files (observed w 0) d None) = Inr files"
    and k: "k < length files"
    and bad: "\<not> is_file (observed w (Suc k)) (files ! k)"
    and ok: "\<And>i. i < k \<Longrightarrow> is_file (observed w (Suc i)) (files ! i)"
  shows "run_ingestion w d =
           (w\<lparr>calls := calls w @ ListInputFiles d # map IngestFileFromPath (take (Suc k) files),
              draws := draws w + k\<rparr>,
            Inl (projl (snd (ingest_file_from_path (observed w (Suc k)) (drawn w k)
                               (files ! k)))))"
proof -
  let ?w1 = "w\<lparr>calls := calls w @ [ListInputFiles d]\<rparr>"
  have bad1: "\<not> is_file (disk ?w1 (length (calls ?w1) + k)) (files ! k)"
    using bad by (simp add: observed_def)
  have ok1: "is_file (disk ?w1 (length (calls ?w1) + i)) (files ! i)" if "i < k" for i
    using ok[OF that] by (simp add: observed_def)
  from k have ne: "files \<noteq> []" by auto
  show ?thesis
    using l ne
    by (simp add: run_ingestion_def call_list_input_files_def split_def
          ingest_each_fail[OF k bad1 ok1] observed_def drawn_def del: ingest_each.simps)
qed

lemma sample_root_input: "joinpath sample_root ''input'' = sample_dir"
  by (simp add: sample_root_def sample_dir_def joinpath_def)

lemma observed_sample_world: "observed sample_world i = sample_fs"
  by (simp add: observed_def sample_world_def)

lemma observed_deleted:
  "observed sample_world_deleted 0 = sample_fs"
  "observed sample_world_deleted (Suc i) = sample_fs(joinpath sample_dir ''a.txt'' := None)"
  by (simp_all add: observed_def sample_world_deleted_def)

lemma observed_replaced:
  "observed sample_world_replaced 0 = sample_fs"
  "observed sample_world_replaced (Suc i)
     = sample_fs(joinpath sample_dir ''a.txt'' \<mapsto> Directory [])"
  by (simp_all add: observed_def sample_world_replaced_def)

lemma sample_files_regular:
  "is_file sample_fs (joinpath sample_dir ''REPORT.CSV'')"
  "is_file sample_fs (joinpath sample_dir ''a.txt'')"
  "is_file sample_fs (joinpath sample_dir ''b.pdf'')"
  by (simp_all add: sample_defs)

lemma sample_after:
  "is_file (sample_fs(joinpath sample_dir ''a.txt'' := None)) (joinpath sample_dir ''REPORT.CSV'')"
  "\<not> exists (sample_fs(joinpath sample_dir ''a.txt'' := None)) (joinpath sample_dir ''a.txt'')"
  "is_file (sample_fs(joinpath sample_dir ''a.txt'' \<mapsto> Directory []))
     (joinpath sample_dir ''REPORT.CSV'')"
  "exists (sample_fs(joinpath sample_dir ''a.txt'' \<mapsto> Directory []))
     (joinpath sample_dir ''a.txt'')"
  "\<not> is_file (sample_fs(joinpath sample_dir ''a.txt'' \<mapsto> Directory []))
     (joinpath sample_dir ''a.txt'')"
  by (simp_all add: sample_defs)

lemma sample_strs:
  "str (joinpath sample_dir ''REPORT.CSV'') = ''/srv/input/REPORT.CSV''"
  "str (joinpath sample_dir ''a.txt'') = ''/srv/input/a.txt''"
  "str (joinpath sample_dir ''b.pdf'') = ''/srv/input/b.pdf''"
  by (simp_all add: sample_dir_def joinpath_def str_def)

lemma all_less_3: "(\<forall>i<3. P i) \<longleftrightarrow> P 0 \<and> P (Suc 0) \<and> P (Suc (Suc (0::nat)))"
  by (auto simp: numeral_3_eq_3 less_Suc_eq)

lemma all_less_1: "(\<forall>i<Suc 0. P i) \<longleftrightarrow> P (0::nat)"
  by simp

text \<open>
  Claim C3. \<open>run_ingestion\<close> calls the lister once, first. When the lister raises, the
  exception leaves \<open>run_ingestion\<close>; when it returns the empty list, \<open>run_ingestion\<close> returns
  the empty list and calls nothing else. Otherwise it calls the ingestor on the listed
  files in the order of the list, each call observing the file system as it is then. When
  every file is still a regular file at its turn, the result is the list of the records, one
  for each listed file and in the same order. When a file is not, the exception of the
  ingestor for the first such file leaves \<open>run_ingestion\<close>, and no later file is ingested.
\<close>

theorem run_ingestion_sequential:
  "(\<forall>e. snd (list_input_files (observed w 0) input_dir None) = Inl e \<longrightarrow>
       run_ingestion w input_dir = (w\<lparr>calls := calls w @ [ListInputFiles input_dir]\<rparr>, Inl e))
   \<and> (snd (list_input_files (observed w 0) input_dir None) = Inr [] \<longrightarrow>
       run_ingestion w input_dir = (w\<lparr>calls := calls w @ [ListInputFiles input_dir]\<rparr>, Inr []))
   \<and> (\<forall>files.
         snd (list_input_files (observed w 0) input_dir None) = Inr files
         \<and> (\<forall>i < length files. is_file (observed w (Suc i)) (files ! i)) \<longrightarrow>
         (\<exists>records.
            run_ingestion w input_dir =
              (w\<lparr>calls := calls w @ ListInputFiles input_dir # map IngestFileFromPath files,
                 draws := draws w + length files\<rparr>,
               Inr records)
          \<and> length records = length files
          \<and> map path records = map str files
          \<and> (\<forall>i < length files.
                snd (ingest_file_from_path (observed w (Suc i)) (drawn w i) (files ! i))
                  = Inr (records ! i))))
   \<and> (\<forall>files k.
         snd (list_input_files (observed w 0) input_dir None) = Inr files
         \<and> k < length files
         \<and> \<not> is_file (observed w (Suc k)) (files ! k)
         \<and> (\<forall>i < k. is_file (observed w (Suc i)) (files ! i)) \<longrightarrow>
         (\<exists>e.
            snd (ingest_file_from_path (observed w (Suc k)) (drawn w k) (files ! k)) = Inl e
          \<and> run_ingestion w input_dir =
              (w\<lparr>calls := calls w @ ListInputFiles input_dir
                                # map IngestFileFromPath (take (Suc k) files),
                 draws := draws w + k\<rparr>,
               Inl e)))"
proof (intro conjI allI impI)
  fix e assume "snd (list_input_files (observed w 0) input_dir None) = Inl e"
  then show "run_ingestion w input_dir
               = (w\<lparr>calls := calls w @ [ListInputFiles input_dir]\<rparr>, Inl e)"
    by (rule run_ingestion_listing_fails)
next
  assume "snd (list_input_files (observed w 0) input_dir None) = Inr []"
  then show "run_ingestion w input_dir
               = (w\<lparr>calls := calls w @ [ListInputFiles input_dir]\<rparr>, Inr [])"
    by (simp add: run_ingestion_def call_list_input_files_def observed_def split_def)
next
  fix files
  assume a: "snd (list_input_files (observed w 0) input_dir None) = Inr files
             \<and> (\<forall>i < length files. is_file (observed w (Suc i)) (files ! i))"
  let ?records = "map (\<lambda>i. projr (snd (ingest_file_from_path (observed w (Suc i)) (drawn w i)
                                        (files ! i)))) [0..<length files]"
  have run: "run_ingestion w input_dir =
              (w\<lparr>calls := calls w @ ListInputFiles input_dir # map IngestFileFromPath files,
                 draws := draws w + length files\<rparr>,
               Inr ?records)"
    using a by (intro run_ingestion_all_ingested) simp_all
  have len: "length ?records = length files" by simp
  have each: "\<forall>i < length files.
                snd (ingest_file_from_path (observed w (Suc i)) (drawn w i) (files ! i))
                  = Inr (?records ! i)"
    using a by (simp add: ingest_file_from_path_file)
  have paths: "map path ?records = map str files"
    using a by (intro nth_equalityI) (simp_all add: ingest_file_from_path_file)
  from run len paths each
  show "\<exists>records.
            run_ingestion w input_dir =
              (w\<lparr>calls := calls w @ ListInputFiles input_dir # map IngestFileFromPath files,
                 draws := draws w + length files\<rparr>,
               Inr records)
          \<and> length records = length files
          \<and> map path records = map str files
          \<and> (\<forall>i < length files.
                snd (ingest_file_from_path (observed w (Suc i)) (drawn w i) (files ! i))
                  = Inr (records ! i))"
    by blast
next
  fix files k
  assume a: "snd (list_input_files (observed w 0) input_dir None) = Inr files
         \<and> k < length files
         \<and> \<not> is_file (observed w (Suc k)) (files ! k)
         \<and> (\<forall>i < k. is_file (observed w (Suc i)) (files ! i))"
  have run: "run_ingestion w input_dir =
           (w\<lparr>calls := calls w @ ListInputFiles input_dir
                             # map IngestFileFromPath (take (Suc k) files),
              draws := draws w + k\<rparr>,
            Inl (projl (snd (ingest_file_from_path (observed w (Suc k)) (drawn w k)
                               (files ! k)))))"
    using a by (intro run_ingestion_aborts) simp_all
  have "snd (ingest_file_from_path (observed w (Suc k)) (drawn w k) (files ! k))
          = Inl (projl (snd (ingest_file_from_path (observed w (Suc k)) (drawn w k)
                               (files ! k))))"
    using a by (simp add: ingest_file_from_path_not_file)
  with run
  show "\<exists>e.
            snd (ingest_file_from_path (observed w (Suc k)) (drawn w k) (files ! k)) = Inl e
          \<and> run_ingestion w input_dir =
              (w\<lparr>calls := calls w @ ListInputFiles input_dir
                                # map IngestFileFromPath (take (Suc k) files),
                 draws := draws w + k\<rparr>,
               Inl e)"
    by blast
qed

theorem run_ingestion_sequential_witness:
  "snd (list_input_files (observed sample_world 0) sample_dir None) =
     Inr [joinpath sample_dir ''REPORT.CSV'', joinpath sample_dir ''a.txt'',
          joinpath sample_dir ''b.pdf'']
   \<and> (\<exists>records.
        run_ingestion sample_world sample_dir =
          (sample_world\<lparr>calls := [ListInputFiles sample_dir,
                                   IngestFileFromPath (joinpath sample_dir ''REPORT.CSV''),
                                   IngestFileFromPath (joinpath sample_dir ''a.txt''),
                                   IngestFileFromPath (joinpath sample_dir ''b.pdf'')],
                         draws := 3\<rparr>,
           Inr records)
        \<and> length records = 3
        \<and> map path records
            = [''/srv/input/REPORT.CSV'', ''/srv/input/a.txt'', ''/srv/input/b.pdf''])
   \<and> snd (list_input_files (observed sample_world_deleted 0) sample_dir None) =
     Inr [joinpath sample_dir ''REPORT.CSV'', joinpath sample_dir ''a.txt'',
          joinpath sample_dir ''b.pdf'']
   \<and> \<not> is_file (observed sample_world_deleted 2) (joinpath sample_dir ''a.txt'')
   \<and> run_ingestion sample_world_deleted sample_dir =
        (sample_world_deleted\<lparr>calls := [ListInputFiles sample_dir,
                                   IngestFileFromPath (joinpath sample_dir ''REPORT.CSV''),
                                   IngestFileFromPath (joinpath sample_dir ''a.txt'')],
                         draws := 1\<rparr>,
         Inl (FileNotFoundError (''File '' @ quoted ''/srv/input/a.txt'' @ '' does not exist.'')))"
proof -
  let ?files = "[joinpath sample_dir ''REPORT.CSV'', joinpath sample_dir ''a.txt'',
                 joinpath sample_dir ''b.pdf'']"
  have l1: "snd (list_input_files (observed sample_world 0) sample_dir None) = Inr ?files"
    by (simp add: observed_sample_world sample_listing)
  have l2: "snd (list_input_files (observed sample_world_deleted 0) sample_dir None) = Inr ?files"
    by (simp add: observed_deleted sample_listing)
  have ok: "\<forall>i < length ?files. is_file (observed sample_world (Suc i)) (?files ! i)"
    by (auto simp: less_Suc_eq observed_sample_world sample_files_regular)
  have bad: "\<not> is_file (observed sample_world_deleted 2) (joinpath sample_dir ''a.txt'')"
    using sample_after(2) is_file_exists
    by (auto simp: numeral_2_eq_2 observed_deleted)
  have pre: "\<forall>i < Suc 0. is_file (observed sample_world_deleted (Suc i)) (?files ! i)"
    by (simp add: observed_deleted sample_after)
  note t1 = run_ingestion_sequential[of sample_world sample_dir]
  note t2 = run_ingestion_sequential[of sample_world_deleted sample_dir]
  from t1 l1 ok
  have r1: "\<exists>records.
        run_ingestion sample_world sample_dir =
          (sample_world\<lparr>calls := calls sample_world @ ListInputFiles sample_dir
                                    # map IngestFileFromPath ?files,
                         draws := draws sample_world + length ?files\<rparr>,
           Inr records)
        \<and> length records = length ?files
        \<and> map path records = map str ?files"
    by blast
  from t2 l2 bad pre
  have "\<exists>e. snd (ingest_file_from_path (observed sample_world_deleted (Suc (Suc 0)))
                  (drawn sample_world_deleted (Suc 0)) (?files ! Suc 0)) = Inl e
          \<and> run_ingestion sample_world_deleted sample_dir =
              (sample_world_deleted\<lparr>calls := calls sample_world_deleted
                   @ ListInputFiles sample_dir # map IngestFileFromPath (take (Suc (Suc 0)) ?files),
                 draws := draws sample_world_deleted + Suc 0\<rparr>,
               Inl e)"
    by (auto simp: numeral_2_eq_2)
  then obtain e where
    e: "snd (ingest_file_from_path (observed sample_world_deleted (Suc (Suc 0)))
               (drawn sample_world_deleted (Suc 0)) (joinpath sample_dir ''a.txt'')) = Inl e"
    and run: "run_ingestion sample_world_deleted sample_dir =
              (sample_world_deleted\<lparr>calls := calls sample_world_deleted
                   @ [ListInputFiles sample_dir,
                      IngestFileFromPath (joinpath sample_dir ''REPORT.CSV''),
                      IngestFileFromPath (joinpath sample_dir ''a.txt'')],
                 draws := draws sample_world_deleted + Suc 0\<rparr>,
               Inl e)"
    by auto
  have e': "e = FileNotFoundError (''File '' @ quoted ''/srv/input/a.txt'' @ '' does not exist.'')"
    using e sample_after(2)
    by (simp add: observed_deleted ingest_file_from_path_def sample_strs)
  have c: "calls sample_world_deleted = []" "draws sample_world_deleted = 0"
    by (simp_all add: sample_world_deleted_def)
  have r2: "run_ingestion sample_world_deleted sample_dir =
        (sample_world_deleted\<lparr>calls := [ListInputFiles sample_dir,
                                   IngestFileFromPath (joinpath sample_dir ''REPORT.CSV''),
                                   IngestFileFromPath (joinpath sample_dir ''a.txt'')],
                         draws := 1\<rparr>,
         Inl (FileNotFoundError (''File '' @ quoted ''/srv/input/a.txt'' @ '' does not exist.'')))"
    using run by (simp add: e' c)
  have c0: "calls sample_world = []" "draws sample_world = 0"
    by (simp_all add: sample_world_def)
  from r1 have r1': "\<exists>records.
        run_ingestion sample_world sample_dir =
          (sample_world\<lparr>calls := [ListInputFiles sample_dir,
                                   IngestFileFromPath (joinpath sample_dir ''REPORT.CSV''),
                                   IngestFileFromPath (joinpath sample_dir ''a.txt''),
                                   IngestFileFromPath (joinpath sample_dir ''b.pdf'')],
                         draws := 3\<rparr>,
           Inr records)
        \<and> length records = 3
        \<and> map path records
            = [''/srv/input/REPORT.CSV'', ''/srv/input/a.txt'', ''/srv/input/b.pdf'']"
    by (simp add: sample_strs c0 numeral_3_eq_3)
  from l1 r1' l2 bad r2 show ?thesis
    by (intro conjI)
qed

section \<open>The command-line entry point\<close>

lemma main_returns:
  "snd (main project_root now lg w) =
     (case snd (run_ingestion w (joinpath project_root ''input'')) of
        Inl (FileNotFoundError msg) \<Rightarrow>
          Inr [started project_root now lg, (ERROR, ''Ingestion failed: '' @ msg)]
      | Inl (NotADirectoryError msg) \<Rightarrow>
          Inr [started project_root now lg, (ERROR, ''Ingestion failed: '' @ msg)]
      | Inl (IsADirectoryError msg) \<Rightarrow> Inl (IsADirectoryError msg)
      | Inr ingested_files \<Rightarrow> Inr (started project_root now lg # map summary ingested_files))"
  by (simp add: main_def started_def split_def Let_def split: sum.splits error.splits)

lemma main_world:
  "snd (fst (main project_root now lg w)) = fst (run_ingestion w (joinpath project_root ''input''))"
  by (simp add: main_def split_def Let_def split: sum.splits error.splits)

lemma sample_log_file:
  "str (snd (configure_run_logger sample_root sample_now ''cli_ingestion'' 20 lg)) =
     ''/srv/logs/20250309/cli_ingestion_20250309_140507/cli_ingestion_20250309_140507.log''"
  by (simp add: configure_run_logger_def build_run_log_paths_def strftime_Ymd_HMS_def
      strftime_Ymd_def sample_now_def two_digits_def four_digits_def digit_def
      sample_root_def joinpath_def Let_def split_def str_def)

lemma sample_started:
  "started sample_root sample_now lg =
     (INFO, ''CLI logging initialised. Run log file: /srv/logs/20250309/cli_ingestion_20250309_140507/cli_ingestion_20250309_140507.log'')"
  by (simp add: started_def sample_log_file)

text \<open>
  Claim C6, amended. \<open>main\<close> catches every \<^verbatim>\<open>FileNotFoundError\<close> and every
  \<^verbatim>\<open>NotADirectoryError\<close> that leaves \<open>run_ingestion\<close>, logs it and returns: those of the
  lister for a missing input directory or one that is not a directory, and also the
  \<^verbatim>\<open>FileNotFoundError\<close> of the ingestor for a listed file that no longer exists at its turn.
  The \<^verbatim>\<open>IsADirectoryError\<close> of the ingestor, for a listed path that exists and is no longer a
  regular file at its turn, is not caught and leaves \<open>main\<close>.
\<close>

theorem main_catches_by_class:
  "(\<not> exists (observed w 0) (joinpath project_root ''input'') \<longrightarrow>
      snd (main project_root now lg w) =
        Inr [started project_root now lg,
             (ERROR, ''Ingestion failed: Input directory ''
                     @ quoted (str (joinpath project_root ''input'')) @ '' was not found.'')])
   \<and> (exists (observed w 0) (joinpath project_root ''input'')
       \<and> \<not> is_dir (observed w 0) (joinpath project_root ''input'') \<longrightarrow>
      snd (main project_root now lg w) =
        Inr [started project_root now lg,
             (ERROR, ''Ingestion failed: ''
                     @ quoted (str (joinpath project_root ''input'')) @ '' is not a directory.'')])
   \<and> (\<forall>files k.
         snd (list_input_files (observed w 0) (joinpath project_root ''input'') None) = Inr files
         \<and> k < length files
         \<and> (\<forall>i < k. is_file (observed w (Suc i)) (files ! i))
         \<and> \<not> exists (observed w (Suc k)) (files ! k) \<longrightarrow>
         snd (main project_root now lg w) =
           Inr [started project_root now lg,
                (ERROR, ''Ingestion failed: File '' @ quoted (str (files ! k))
                        @ '' does not exist.'')])
   \<and> (\<forall>files k.
         snd (list_input_files (observed w 0) (joinpath project_root ''input'') None) = Inr files
         \<and> k < length files
         \<and> (\<forall>i < k. is_file (observed w (Suc i)) (files ! i))
         \<and> exists (observed w (Suc k)) (files ! k)
         \<and> \<not> is_file (observed w (Suc k)) (files ! k) \<longrightarrow>
         snd (main project_root now lg w) =
           Inl (IsADirectoryError (quoted (str (files ! k)) @ '' is not a file.'')))"
proof (intro conjI allI impI)
  assume "\<not> exists (observed w 0) (joinpath project_root ''input'')"
  then have "snd (run_ingestion w (joinpath project_root ''input'')) =
               Inl (FileNotFoundError (''Input directory ''
                     @ quoted (str (joinpath project_root ''input'')) @ '' was not found.''))"
    by (simp add: run_ingestion_listing_fails list_input_files_def)
  then show "snd (main project_root now lg w) =
        Inr [started project_root now lg,
             (ERROR, ''Ingestion failed: Input directory ''
                     @ quoted (str (joinpath project_root ''input'')) @ '' was not found.'')]"
    by (simp add: main_returns)
next
  assume "exists (observed w 0) (joinpath project_root ''input'')
       \<and> \<not> is_dir (observed w 0) (joinpath project_root ''input'')"
  then have "snd (run_ingestion w (joinpath project_root ''input'')) =
               Inl (NotADirectoryError
                     (quoted (str (joinpath project_root ''input'')) @ '' is not a directory.''))"
    by (simp add: run_ingestion_listing_fails list_input_files_def)
  then show "snd (main project_root now lg w) =
        Inr [started project_root now lg,
             (ERROR, ''Ingestion failed: ''
                     @ quoted (str (joinpath project_root ''input'')) @ '' is not a directory.'')]"
    by (simp add: main_returns)
next
  fix files k
  assume a: "snd (list_input_files (observed w 0) (joinpath project_root ''input'') None)
               = Inr files
         \<and> k < length files
         \<and> (\<forall>i < k. is_file (observed w (Suc i)) (files ! i))
         \<and> \<not> exists (observed w (Suc k)) (files ! k)"
  then have nf: "\<not> is_file (observed w (Suc k)) (files ! k)"
    using is_file_exists by blast
  have "snd (run_ingestion w (joinpath project_root ''input'')) =
          Inl (FileNotFoundError (''File '' @ quoted (str (files ! k)) @ '' does not exist.''))"
    using a nf by (subst run_ingestion_aborts[where k = k and files = files])
      (simp_all add: ingest_file_from_path_def)
  then show "snd (main project_root now lg w) =
           Inr [started project_root now lg,
                (ERROR, ''Ingestion failed: File '' @ quoted (str (files ! k))
                        @ '' does not exist.'')]"
    by (simp add: main_returns)
next
  fix files k
  assume a: "snd (list_input_files (observed w 0) (joinpath project_root ''input'') None)
               = Inr files
         \<and> k < length files
         \<and> (\<forall>i < k. is_file (observed w (Suc i)) (files ! i))
         \<and> exists (observed w (Suc k)) (files ! k)
         \<and> \<not> is_file (observed w (Suc k)) (files ! k)"
  have "snd (run_ingestion w (joinpath project_root ''input'')) =
          Inl (IsADirectoryError (quoted (str (files ! k)) @ '' is not a file.''))"
    using a by (subst run_ingestion_aborts[where k = k and files = files])
      (simp_all add: ingest_file_from_path_def)
  then show "snd (main project_root now lg w) =
           Inl (IsADirectoryError (quoted (str (files ! k)) @ '' is not a file.''))"
    by (simp add: main_returns)
qed

text \<open>
  The theorem at two runs over the sample directory: one whose input directory is missing,
  which \<open>main\<close> logs and returns from, and one in which \<^verbatim>\<open>a.txt\<close> is replaced by a
  directory after the listing, whose \<^verbatim>\<open>IsADirectoryError\<close> leaves \<open>main\<close>.
\<close>

theorem main_catches_by_class_witness:
  "\<not> exists (observed sample_world 0) (joinpath (joinpath sample_root ''absent'') ''input'')
   \<and> snd (main (joinpath sample_root ''absent'') sample_now sample_logging sample_world) =
       Inr [started (joinpath sample_root ''absent'') sample_now sample_logging,
            (ERROR, ''Ingestion failed: Input directory '' @ quoted ''/srv/absent/input''
                    @ '' was not found.'')]
   \<and> snd (list_input_files (observed sample_world_replaced 0) (joinpath sample_root ''input'') None) =
     Inr [joinpath sample_dir ''REPORT.CSV'', joinpath sample_dir ''a.txt'',
          joinpath sample_dir ''b.pdf'']
   \<and> is_file (observed sample_world_replaced 1) (joinpath sample_dir ''REPORT.CSV'')
   \<and> exists (observed sample_world_replaced 2) (joinpath sample_dir ''a.txt'')
   \<and> \<not> is_file (observed sample_world_replaced 2) (joinpath sample_dir ''a.txt'')
   \<and> snd (main sample_root sample_now sample_logging sample_world_replaced) =
       Inl (IsADirectoryError (quoted ''/srv/input/a.txt'' @ '' is not a file.''))"
proof -
  let ?files = "[joinpath sample_dir ''REPORT.CSV'', joinpath sample_dir ''a.txt'',
                 joinpath sample_dir ''b.pdf'']"
  have m: "\<not> exists (observed sample_world 0) (joinpath (joinpath sample_root ''absent'') ''input'')"
    by (simp add: observed_sample_world sample_root_def sample_defs)
  have s: "str (joinpath (joinpath sample_root ''absent'') ''input'') = ''/srv/absent/input''"
    by (simp add: sample_root_def joinpath_def str_def)
  have l: "snd (list_input_files (observed sample_world_replaced 0)
                  (joinpath sample_root ''input'') None) = Inr ?files"
    by (simp add: observed_replaced sample_listing sample_root_input)
  have f: "is_file (observed sample_world_replaced 1) (joinpath sample_dir ''REPORT.CSV'')"
    using sample_after(3) by (simp add: observed_replaced)
  have g: "exists (observed sample_world_replaced 2) (joinpath sample_dir ''a.txt'')"
    using sample_after(4) by (simp add: numeral_2_eq_2 observed_replaced)
  have h: "\<not> is_file (observed sample_world_replaced 2) (joinpath sample_dir ''a.txt'')"
    using sample_after(5) by (simp add: numeral_2_eq_2 observed_replaced)
  have pre: "\<forall>i < Suc 0. is_file (observed sample_world_replaced (Suc i)) (?files ! i)"
    using f by simp
  note t1 = main_catches_by_class[of sample_world "joinpath sample_root ''absent''"
                                    sample_now sample_logging]
  note t2 = main_catches_by_class[of sample_world_replaced sample_root sample_now sample_logging]
  from t1 m have r1: "snd (main (joinpath sample_root ''absent'') sample_now sample_logging sample_world) =
       Inr [started (joinpath sample_root ''absent'') sample_now sample_logging,
            (ERROR, ''Ingestion failed: Input directory '' @ quoted ''/srv/absent/input''
                    @ '' was not found.'')]"
    by (simp add: s)
  from t2 have "snd (list_input_files (observed sample_world_replaced 0) (joinpath sample_root ''input'') None) = Inr ?files
         \<and> Suc 0 < length ?files
         \<and> (\<forall>i < Suc 0. is_file (observed sample_world_replaced (Suc i)) (?files ! i))
         \<and> exists (observed sample_world_replaced (Suc (Suc 0))) (?files ! Suc 0)
         \<and> \<not> is_file (observed sample_world_replaced (Suc (Suc 0))) (?files ! Suc 0) \<longrightarrow>
         snd (main sample_root sample_now sample_logging sample_world_replaced) =
           Inl (IsADirectoryError (quoted (str (?files ! Suc 0)) @ '' is not a file.''))"
    by blast
  with l pre g h have r2: "snd (main sample_root sample_now sample_logging sample_world_replaced) =
       Inl (IsADirectoryError (quoted ''/srv/input/a.txt'' @ '' is not a file.''))"
    by (simp add: numeral_2_eq_2 sample_strs)
  from m r1 l f g h r2 show ?thesis
    by (intro conjI)
qed

text \<open>
  Claim C6 as stated has the error for a file that disappears after the listing leave
  \<open>main\<close> uncaught. In the run below \<^verbatim>\<open>a.txt\<close> is listed and then deleted before its
  turn: \<open>main\<close> returns, having logged the failure.
\<close>

theorem main_missing_file_caught_counterexample:
  "snd (list_input_files (observed sample_world_deleted 0) (joinpath sample_root ''input'') None) =
     Inr [joinpath sample_dir ''REPORT.CSV'', joinpath sample_dir ''a.txt'',
          joinpath sample_dir ''b.pdf'']
   \<and> is_file (observed sample_world_deleted 1) (joinpath sample_dir ''REPORT.CSV'')
   \<and> \<not> exists (observed sample_world_deleted 2) (joinpath sample_dir ''a.txt'')
   \<and> snd (main sample_root sample_now sample_logging sample_world_deleted) =
       Inr [(INFO, ''CLI logging initialised. Run log file: /srv/logs/20250309/cli_ingestion_20250309_140507/cli_ingestion_20250309_140507.log''),
            (ERROR, ''Ingestion failed: File '' @ quoted ''/srv/input/a.txt'' @ '' does not exist.'')]"
proof -
  let ?files = "[joinpath sample_dir ''REPORT.CSV'', joinpath sample_dir ''a.txt'',
                 joinpath sample_dir ''b.pdf'']"
  have l: "snd (list_input_files (observed sample_world_deleted 0) sample_dir None) = Inr ?files"
    by (simp add: observed_deleted sample_listing)
  have f: "is_file (observed sample_world_deleted 1) (joinpath sample_dir ''REPORT.CSV'')"
    using sample_after(1) by (simp add: observed_deleted)
  have g: "\<not> exists (observed sample_world_deleted 2) (joinpath sample_dir ''a.txt'')"
    using sample_after(2) by (simp add: numeral_2_eq_2 observed_deleted)
  have nf: "\<not> is_file (observed sample_world_deleted (Suc (Suc 0))) (?files ! Suc 0)"
    using g is_file_exists by (auto simp: numeral_2_eq_2)
  have pre: "\<forall>i < Suc 0. is_file (observed sample_world_deleted (Suc i)) (?files ! i)"
    using f by simp
  have "snd (run_ingestion sample_world_deleted sample_dir) =
          Inl (projl (snd (ingest_file_from_path (observed sample_world_deleted (Suc (Suc 0)))
                            (drawn sample_world_deleted (Suc 0)) (?files ! Suc 0))))"
    using l nf pre by (subst run_ingestion_aborts[where k = "Suc 0" and files = ?files]) simp_all
  also have "\<dots> = Inl (FileNotFoundError (''File '' @ quoted ''/srv/input/a.txt''
                                           @ '' does not exist.''))"
    using sample_after(2) by (simp add: observed_deleted ingest_file_from_path_def sample_strs)
  finally have "snd (main sample_root sample_now sample_logging sample_world_deleted) =
       Inr [started sample_root sample_now sample_logging,
            (ERROR, ''Ingestion failed: File '' @ quoted ''/srv/input/a.txt'' @ '' does not exist.'')]"
    by (simp add: main_returns sample_root_input)
  with l f g show ?thesis
    by (simp only: sample_started sample_root_input) simp
qed

section \<open>The root logger\<close>

lemma reset_handlers_root:
  "root_handlers st = hs \<Longrightarrow> root_handlers (reset_handlers hs st) = []"
  by (induction hs arbitrary: st) (simp_all add: close_def removeHandler_def)

lemma reset_handlers_length:
  "length (heap (reset_handlers hs st)) = length (heap st)"
  by (induction hs arbitrary: st) (simp_all add: close_def removeHandler_def)

lemma reset_handlers_level:
  "root_level (reset_handlers hs st) = root_level st"
  by (induction hs arbitrary: st) (simp_all add: close_def removeHandler_def)

lemma reset_handlers_nth:
  "j < length (heap st) \<Longrightarrow>
   heap (reset_handlers hs st) ! j =
     (if j \<in> set hs then (heap st ! j)\<lparr>closed := True\<rparr> else heap st ! j)"
proof (induction hs arbitrary: st)
  case Nil
  then show ?case by simp
next
  case (Cons h hs)
  let ?st = "close h (removeHandler h st)"
  have len: "length (heap ?st) = length (heap st)"
    by (simp add: close_def removeHandler_def)
  have nth: "heap ?st ! j = (if j = h then (heap st ! j)\<lparr>closed := True\<rparr> else heap st ! j)"
    using Cons.prems by (simp add: close_def removeHandler_def nth_list_update)
  have "heap (reset_handlers hs ?st) ! j =
          (if j \<in> set hs then (heap ?st ! j)\<lparr>closed := True\<rparr> else heap ?st ! j)"
    using Cons.prems len by (intro Cons.IH) simp
  with nth show ?case
    by (cases "j = h") simp_all
qed

lemma configure_run_logger_root:
  "root_handlers (fst (configure_run_logger project_root now app_name level st))
     = [length (heap st), Suc (length (heap st))]"
  by (simp add: configure_run_logger_def split_def Let_def new_handler_def addHandler_def
      reset_handlers_root reset_handlers_length)

lemma configure_run_logger_heap:
  "heap (fst (configure_run_logger project_root now app_name level st)) =
     heap (reset_handlers (root_handlers st) st)
       @ [\<lparr>kind = FileSink (str (snd (build_run_log_paths project_root now app_name))),
           closed = False\<rparr>,
          \<lparr>kind = ConsoleSink, closed = False\<rparr>]"
  by (simp add: configure_run_logger_def split_def Let_def new_handler_def addHandler_def
      reset_handlers_root reset_handlers_length)

lemma configure_run_logger_level:
  "root_level (fst (configure_run_logger project_root now app_name level st)) = level"
  by (simp add: configure_run_logger_def split_def Let_def new_handler_def addHandler_def
      reset_handlers_root reset_handlers_length)

lemma configure_run_logger_length:
  "length (heap (fst (configure_run_logger project_root now app_name level st)))
     = Suc (Suc (length (heap st)))"
  by (simp add: configure_run_logger_heap reset_handlers_length)

lemma configure_run_logger_old:
  "j < length (heap st) \<Longrightarrow>
   heap (fst (configure_run_logger project_root now app_name level st)) ! j =
     (if j \<in> set (root_handlers st) then (heap st ! j)\<lparr>closed := True\<rparr> else heap st ! j)"
  by (simp add: configure_run_logger_heap nth_append reset_handlers_length reset_handlers_nth)

lemma configure_run_logger_calls_append:
  "configure_run_logger_calls project_root (xs @ ys) st =
     configure_run_logger_calls project_root ys (configure_run_logger_calls project_root xs st)"
  by (induction xs arbitrary: st) auto

lemma configure_run_logger_calls_wf:
  "\<forall>h \<in> set (root_handlers st). h < length (heap st) \<Longrightarrow>
   \<forall>h \<in> set (root_handlers (configure_run_logger_calls project_root cs st)).
      h < length (heap (configure_run_logger_calls project_root cs st))"
proof (induction cs arbitrary: st)
  case Nil
  then show ?case by simp
next
  case (Cons c cs)
  obtain app_name level now where c: "c = (app_name, level, now)"
    by (cases c) auto
  show ?case
    unfolding c configure_run_logger_calls.simps
    by (rule Cons.IH) (simp add: configure_run_logger_root configure_run_logger_length)
qed

text \<open>A handler that is detached and closed stays so.\<close>

lemma configure_run_logger_calls_stays:
  "h < length (heap st) \<Longrightarrow> h \<notin> set (root_handlers st) \<Longrightarrow> closed (heap st ! h) \<Longrightarrow>
   h \<notin> set (root_handlers (configure_run_logger_calls project_root cs st))
   \<and> closed (heap (configure_run_logger_calls project_root cs st) ! h)"
proof (induction cs arbitrary: st)
  case Nil
  then show ?case by simp
next
  case (Cons c cs)
  obtain app_name level now where c: "c = (app_name, level, now)"
    by (cases c) auto
  let ?st = "fst (configure_run_logger project_root now app_name level st)"
  have "h < length (heap ?st)" "h \<notin> set (root_handlers ?st)" "closed (heap ?st ! h)"
    using Cons.prems
    by (simp_all add: configure_run_logger_root configure_run_logger_length
        configure_run_logger_old)
  then show ?case
    unfolding c configure_run_logger_calls.simps by (rule Cons.IH)
qed

lemma configure_run_logger_calls_detaches:
  assumes wf: "\<forall>h \<in> set (root_handlers st). h < length (heap st)"
    and h: "h \<in> set (root_handlers st)"
  shows "h \<notin> set (root_handlers (configure_run_logger_calls project_root (c # cs) st))
         \<and> closed (heap (configure_run_logger_calls project_root (c # cs) st) ! h)"
proof -
  obtain app_name level now where c: "c = (app_name, level, now)"
    by (cases c) auto
  let ?st = "fst (configure_run_logger project_root now app_name level st)"
  from wf h have lt: "h < length (heap st)" by blast
  then have "h < length (heap ?st)" "h \<notin> set (root_handlers ?st)" "closed (heap ?st ! h)"
    using h
    by (simp_all add: configure_run_logger_root configure_run_logger_length
        configure_run_logger_old)
  then show ?thesis
    unfolding c configure_run_logger_calls.simps by (rule configure_run_logger_calls_stays)
qed

lemma sample_later_log_file:
  "str (snd (build_run_log_paths sample_root sample_later ''cli_ingestion'')) =
     ''/srv/logs/20250309/cli_ingestion_20250309_140508/cli_ingestion_20250309_140508.log''"
  by (simp add: build_run_log_paths_def strftime_Ymd_HMS_def
      strftime_Ymd_def sample_later_def two_digits_def four_digits_def digit_def
      sample_root_def joinpath_def Let_def split_def str_def)

lemma sample_logging_root:
  "root_handlers sample_logging = [0]" "length (heap sample_logging) = 1"
  by (simp_all add: sample_logging_def)

lemma sample_first_call:
  "root_handlers (configure_run_logger_calls sample_root
                    [(''cli_ingestion'', 20, sample_now)] sample_logging) = [1, 2]"
  by (simp add: configure_run_logger_root sample_logging_root)

lemma sample_second_call:
  "root_handlers (configure_run_logger_calls sample_root
                    [(''cli_ingestion'', 20, sample_now), (''cli_ingestion'', 20, sample_later)]
                    sample_logging) = [3, 4]"
  by (simp add: configure_run_logger_root configure_run_logger_length sample_logging_root)

text \<open>
  Claim C9. Start from a root logger whose attached handlers are handler objects of the
  process. In one call of \<open>configure_run_logger\<close>, once the loop over the attached handlers
  is through and before the new handlers are created, no handler is attached and every
  handler that was attached is closed. After any sequence of calls that is not empty, the
  root logger holds exactly two handlers, both open: first a file handler on the log file
  of the last call, then a console handler; they are handler objects of the process, so the
  same holds after further calls. Every handler that was attached at any earlier moment of
  the sequence (before the first call, or after any call but the last) is then detached and
  closed. In particular two consecutive calls leave one open file handler and one open
  console handler.
\<close>

theorem configure_run_logger_sinks:
  assumes wf: "\<forall>h \<in> set (root_handlers st). h < length (heap st)"
  shows
    "root_handlers (reset_handlers (root_handlers st) st) = []
     \<and> (\<forall>h \<in> set (root_handlers st). closed (heap (reset_handlers (root_handlers st) st) ! h))
     \<and> (\<forall>earlier later app_name level now.
          map (\<lambda>h. heap (configure_run_logger_calls project_root
                           (earlier @ later @ [(app_name, level, now)]) st) ! h)
            (root_handlers (configure_run_logger_calls project_root
                              (earlier @ later @ [(app_name, level, now)]) st))
            = [\<lparr>kind = FileSink (str (snd (build_run_log_paths project_root now app_name))),
                closed = False\<rparr>,
               \<lparr>kind = ConsoleSink, closed = False\<rparr>]
          \<and> distinct (root_handlers (configure_run_logger_calls project_root
                                       (earlier @ later @ [(app_name, level, now)]) st))
          \<and> (\<forall>h \<in> set (root_handlers (configure_run_logger_calls project_root
                                         (earlier @ later @ [(app_name, level, now)]) st)).
                h < length (heap (configure_run_logger_calls project_root
                                    (earlier @ later @ [(app_name, level, now)]) st)))
          \<and> (\<forall>h \<in> set (root_handlers (configure_run_logger_calls project_root earlier st)).
                h \<notin> set (root_handlers (configure_run_logger_calls project_root
                                           (earlier @ later @ [(app_name, level, now)]) st))
                \<and> closed (heap (configure_run_logger_calls project_root
                                   (earlier @ later @ [(app_name, level, now)]) st) ! h)))"
proof (intro conjI allI ballI)
  show "root_handlers (reset_handlers (root_handlers st) st) = []"
    by (simp add: reset_handlers_root)
next
  fix h assume "h \<in> set (root_handlers st)"
  with wf show "closed (heap (reset_handlers (root_handlers st) st) ! h)"
    by (simp add: reset_handlers_nth)
next
  fix earlier later :: "(string \<times> int \<times> datetime) list" and app_name level now
  let ?prev = "configure_run_logger_calls project_root (earlier @ later) st"
  let ?final = "configure_run_logger_calls project_root
                  (earlier @ later @ [(app_name, level, now)]) st"
  have final: "?final = fst (configure_run_logger project_root now app_name level ?prev)"
    using configure_run_logger_calls_append[of project_root "earlier @ later"
        "[(app_name, level, now)]" st]
    by simp
  show "map (\<lambda>h. heap ?final ! h) (root_handlers ?final)
            = [\<lparr>kind = FileSink (str (snd (build_run_log_paths project_root now app_name))),
                closed = False\<rparr>,
               \<lparr>kind = ConsoleSink, closed = False\<rparr>]"
    unfolding final
    by (simp add: configure_run_logger_root configure_run_logger_heap reset_handlers_length
        nth_append)
  show "distinct (root_handlers ?final)"
    unfolding final by (simp add: configure_run_logger_root)
  {
    fix h assume "h \<in> set (root_handlers ?final)"
    then show "h < length (heap ?final)"
      unfolding final
      by (auto simp: configure_run_logger_root configure_run_logger_length)
  }
  {
    fix h
    assume h: "h \<in> set (root_handlers (configure_run_logger_calls project_root earlier st))"
    let ?mid = "configure_run_logger_calls project_root earlier st"
    have wf_mid: "\<forall>h \<in> set (root_handlers ?mid). h < length (heap ?mid)"
      using wf by (rule configure_run_logger_calls_wf)
    obtain c cs where cs: "later @ [(app_name, level, now)] = c # cs"
      by (cases later) auto
    have "?final = configure_run_logger_calls project_root (c # cs) ?mid"
      using configure_run_logger_calls_append[of project_root earlier
          "later @ [(app_name, level, now)]" st]
      by (simp add: cs)
    then have both: "h \<notin> set (root_handlers ?final) \<and> closed (heap ?final ! h)"
      using configure_run_logger_calls_detaches[OF wf_mid h, of project_root c cs] by simp
    from both show "h \<notin> set (root_handlers ?final)" ..
    from both show "closed (heap ?final ! h)" ..
  }
qed

text \<open>
  The theorem at two consecutive calls, one second apart, from a root logger that holds one
  handler of another kind.
\<close>

theorem configure_run_logger_sinks_witness:
  "root_handlers sample_logging = [0] \<and> length (heap sample_logging) = 1
   \<and> root_handlers (reset_handlers (root_handlers sample_logging) sample_logging) = []
   \<and> closed (heap (reset_handlers (root_handlers sample_logging) sample_logging) ! 0)
   \<and> root_handlers (configure_run_logger_calls sample_root
                       [(''cli_ingestion'', 20, sample_now)] sample_logging) = [1, 2]
   \<and> root_handlers (configure_run_logger_calls sample_root
                       [(''cli_ingestion'', 20, sample_now), (''cli_ingestion'', 20, sample_later)]
                       sample_logging) = [3, 4]
   \<and> map (\<lambda>h. heap (configure_run_logger_calls sample_root
                       [(''cli_ingestion'', 20, sample_now), (''cli_ingestion'', 20, sample_later)]
                       sample_logging) ! h) [3, 4]
       = [\<lparr>kind = FileSink ''/srv/logs/20250309/cli_ingestion_20250309_140508/cli_ingestion_20250309_140508.log'',
           closed = False\<rparr>,
          \<lparr>kind = ConsoleSink, closed = False\<rparr>]
   \<and> closed (heap (configure_run_logger_calls sample_root
                     [(''cli_ingestion'', 20, sample_now), (''cli_ingestion'', 20, sample_later)]
                     sample_logging) ! 0)
   \<and> closed (heap (configure_run_logger_calls sample_root
                     [(''cli_ingestion'', 20, sample_now), (''cli_ingestion'', 20, sample_later)]
                     sample_logging) ! 1)
   \<and> closed (heap (configure_run_logger_calls sample_root
                     [(''cli_ingestion'', 20, sample_now), (''cli_ingestion'', 20, sample_later)]
                     sample_logging) ! 2)"
proof -
  let ?c1 = "(''cli_ingestion'', 20::int, sample_now)"
  let ?c2 = "(''cli_ingestion'', 20::int, sample_later)"
  let ?final = "configure_run_logger_calls sample_root [?c1, ?c2] sample_logging"
  have wf: "\<forall>h \<in> set (root_handlers sample_logging). h < length (heap sample_logging)"
    by (simp add: sample_logging_root)
  note t = configure_run_logger_sinks[OF wf, of sample_root]
  from t have a: "root_handlers (reset_handlers (root_handlers sample_logging) sample_logging) = []"
    by blast
  from t have "\<forall>h \<in> set (root_handlers sample_logging).
                 closed (heap (reset_handlers (root_handlers sample_logging) sample_logging) ! h)"
    by blast
  then have b: "closed (heap (reset_handlers (root_handlers sample_logging) sample_logging) ! 0)"
    by (simp add: sample_logging_root)
  from t have t1:
    "map (\<lambda>h. heap (configure_run_logger_calls sample_root ([?c1] @ [] @ [?c2]) sample_logging) ! h)
       (root_handlers (configure_run_logger_calls sample_root ([?c1] @ [] @ [?c2]) sample_logging))
       = [\<lparr>kind = FileSink (str (snd (build_run_log_paths sample_root sample_later ''cli_ingestion''))),
           closed = False\<rparr>,
          \<lparr>kind = ConsoleSink, closed = False\<rparr>]
     \<and> (\<forall>h \<in> set (root_handlers (configure_run_logger_calls sample_root [?c1] sample_logging)).
           closed (heap (configure_run_logger_calls sample_root ([?c1] @ [] @ [?c2])
                           sample_logging) ! h))"
    by blast
  from t have t2:
    "\<forall>h \<in> set (root_handlers (configure_run_logger_calls sample_root [] sample_logging)).
        closed (heap (configure_run_logger_calls sample_root ([] @ [?c1] @ [?c2])
                        sample_logging) ! h)"
    by blast
  have app: "[?c1] @ [] @ [?c2] = [?c1, ?c2]" "[] @ [?c1] @ [?c2] = [?c1, ?c2]"
    by simp_all
  from t1 have c: "map (\<lambda>h. heap ?final ! h) [3, 4]
       = [\<lparr>kind = FileSink ''/srv/logs/20250309/cli_ingestion_20250309_140508/cli_ingestion_20250309_140508.log'',
           closed = False\<rparr>,
          \<lparr>kind = ConsoleSink, closed = False\<rparr>]"
    unfolding app sample_second_call sample_later_log_file by blast
  from t1 have d: "closed (heap ?final ! 1)" "closed (heap ?final ! 2)"
    unfolding app sample_first_call by simp_all
  from t2 have e: "closed (heap ?final ! 0)"
    unfolding app by (simp add: sample_logging_root)
  from sample_logging_root a b sample_first_call sample_second_call c e d
  show ?thesis
    by (intro conjI)
qed

end
